theory Spec2Isabelle
  imports Complex_Main
begin

section \<open>Bulk upload of water point records: the upload log\<close>

text \<open>
  The development follows \<^verbatim>\<open>bulk_upload_liberia_wpm.py\<close>. This first part is the
  progress log: the line \<^verbatim>\<open>log_result\<close> writes, the way a log file is read back line
  by line, and the two readers \<^verbatim>\<open>load_uploaded_records\<close> and
  \<^verbatim>\<open>get_upload_stats\<close>.

  Python strings are lists of characters. A \<^typ>\<open>char\<close> stands for a code point
  below 256; the classification of characters (white space, upper case) is Python's for
  that range. Code points from 256 on are outside the model.
\<close>

subsection \<open>String operations of Python used by the program\<close>

definition LF :: char where
  "LF = CHR 0x0A"

definition CR :: char where
  "CR = CHR 0x0D"

definition PIPE :: char where
  "PIPE = CHR ''|''"

text \<open>\<^verbatim>\<open>str.isspace\<close> on one character: TAB, LF, VT, FF, CR, the separators
  0x1C to 0x1F, the blank, NEL (0x85) and the no-break space (0xA0).\<close>

definition isspace :: "char \<Rightarrow> bool" where
  "isspace c =
     (let n = (of_char c :: nat)
      in (9 \<le> n \<and> n \<le> 13) \<or> (28 \<le> n \<and> n \<le> 32) \<or> n = 133 \<or> n = 160)"

text \<open>\<^verbatim>\<open>s.strip()\<close>: white space is dropped at both ends.\<close>

definition strip :: "string \<Rightarrow> string" where
  "strip s = rev (dropWhile isspace (rev (dropWhile isspace s)))"

text \<open>\<^verbatim>\<open>s.split(sep)\<close> for a separator of one character: there is always at least
  one field, and empty fields are kept.\<close>

fun py_split :: "char \<Rightarrow> string \<Rightarrow> string list" where
  "py_split sep [] = [[]]"
| "py_split sep (c # cs) =
     (if c = sep then [] # py_split sep cs
      else (case py_split sep cs of
              [] \<Rightarrow> [[c]]
            | p # ps \<Rightarrow> (c # p) # ps))"

text \<open>\<^verbatim>\<open>s.lower()\<close>: the letters A to Z and the upper-case letters of Latin-1 move
  up by 32; every other character stays.\<close>

definition lower_char :: "char \<Rightarrow> char" where
  "lower_char c =
     (let n = (of_char c :: nat)
      in if (65 \<le> n \<and> n \<le> 90) \<or> (192 \<le> n \<and> n \<le> 222 \<and> n \<noteq> 215)
         then char_of (n + 32) else c)"

definition lower :: "string \<Rightarrow> string" where
  "lower s = map lower_char s"

text \<open>\<^verbatim>\<open>sub in s\<close> on strings: \<open>sub\<close> occurs in \<open>s\<close> as a block.\<close>

fun startswith :: "string \<Rightarrow> string \<Rightarrow> bool" where
  "startswith s [] = True"
| "startswith [] (c # cs) = False"
| "startswith (d # ds) (c # cs) = (d = c \<and> startswith ds cs)"

fun py_in :: "string \<Rightarrow> string \<Rightarrow> bool" where
  "py_in sub [] = (sub = [])"
| "py_in sub (c # cs) = (startswith (c # cs) sub \<or> py_in sub cs)"

text \<open>\<^verbatim>\<open>str(n)\<close> for an integer.\<close>

fun digits :: "nat \<Rightarrow> string" where
  "digits n =
     (if n < 10 then [''0123456789'' ! n]
      else digits (n div 10) @ [''0123456789'' ! (n mod 10)])"

definition str_int :: "int \<Rightarrow> string" where
  "str_int i = (if i < 0 then CHR ''-'' # digits (nat (- i)) else digits (nat i))"

text \<open>A string free of line breaks: neither LF nor CR occurs in it.\<close>

definition single_line :: "string \<Rightarrow> bool" where
  "single_line s = (LF \<notin> set s \<and> CR \<notin> set s)"

subsection \<open>Decoded JSON values\<close>

text \<open>
  What \<^verbatim>\<open>response.json()\<close> returns. \<open>JNull\<close> is Python's \<^verbatim>\<open>None\<close>, which is
  also what \<^verbatim>\<open>dict.get\<close> gives for a missing key. A dictionary is the list of its
  items in their order; the keys of a decoded dictionary are strings, each occurring
  once.
\<close>

datatype json =
    JNull
  | JBool bool
  | JInt int
  | JFloat real
  | JStr string
  | JArr "json list"
  | JObj "(string \<times> json) list"

text \<open>Truth value of a decoded value, as \<^verbatim>\<open>osid or ''\<close> tests it.\<close>

fun truthy :: "json \<Rightarrow> bool" where
  "truthy JNull = False"
| "truthy (JBool b) = b"
| "truthy (JInt i) = (i \<noteq> 0)"
| "truthy (JFloat x) = (x \<noteq> 0)"
| "truthy (JStr s) = (s \<noteq> [])"
| "truthy (JArr xs) = (xs \<noteq> [])"
| "truthy (JObj kvs) = (kvs \<noteq> [])"

text \<open>
  \<^verbatim>\<open>repr(v)\<close> of a decoded value. For a string, Python picks the quote (the double
  quote when the string holds a single quote and no double quote, the single quote
  otherwise), puts a backslash before the quote and before a backslash, writes TAB, LF
  and CR as \<^verbatim>\<open>\t\<close>, \<^verbatim>\<open>\n\<close> and \<^verbatim>\<open>\r\<close>, keeps the printable characters, and
  writes every other character as \<^verbatim>\<open>\x\<close> with two hexadecimal digits. Below 256 the
  printable characters are 0x20 to 0x7E and 0xA1 to 0xFF without the soft hyphen 0xAD.
  A list and a dictionary show their members' \<^verbatim>\<open>repr\<close>, separated by a comma and a
  blank. The text of a float is a parameter \<open>fr\<close>: floats are real numbers here, so
  rounding is not modelled, and infinities and NaN are outside the model.
\<close>

definition printable :: "char \<Rightarrow> bool" where
  "printable c =
     (let n = (of_char c :: nat)
      in (32 \<le> n \<and> n \<le> 126) \<or> (161 \<le> n \<and> n \<noteq> 173))"

definition hex_digit :: "nat \<Rightarrow> char" where
  "hex_digit n = ''0123456789abcdef'' ! n"

definition repr_char :: "char \<Rightarrow> char \<Rightarrow> string" where
  "repr_char q c =
     (if c = q \<or> c = CHR 0x5C then [CHR 0x5C, c]
      else if c = CHR 0x09 then [CHR 0x5C, CHR ''t'']
      else if c = LF then [CHR 0x5C, CHR ''n'']
      else if c = CR then [CHR 0x5C, CHR ''r'']
      else if printable c then [c]
      else [CHR 0x5C, CHR ''x'', hex_digit (of_char c div 16), hex_digit (of_char c mod 16)])"

definition quote_of :: "string \<Rightarrow> char" where
  "quote_of s = (if CHR 0x27 \<in> set s \<and> CHR 0x22 \<notin> set s then CHR 0x22 else CHR 0x27)"

definition repr_str :: "string \<Rightarrow> string" where
  "repr_str s = quote_of s # concat (map (repr_char (quote_of s)) s) @ [quote_of s]"

text \<open>\<^verbatim>\<open>sep.join(xs)\<close>.\<close>

fun join :: "string \<Rightarrow> string list \<Rightarrow> string" where
  "join sep [] = []"
| "join sep [x] = x"
| "join sep (x # y # ys) = x @ sep @ join sep (y # ys)"

fun py_repr :: "(real \<Rightarrow> string) \<Rightarrow> json \<Rightarrow> string" where
  "py_repr fr JNull = ''None''"
| "py_repr fr (JBool b) = (if b then ''True'' else ''False'')"
| "py_repr fr (JInt i) = str_int i"
| "py_repr fr (JFloat x) = fr x"
| "py_repr fr (JStr s) = repr_str s"
| "py_repr fr (JArr xs) = ''['' @ join '', '' (map (py_repr fr) xs) @ '']''"
| "py_repr fr (JObj kvs) =
     ''{'' @ join '', '' (map (\<lambda>kv. repr_str (fst kv) @ '': '' @ py_repr fr (snd kv)) kvs)
       @ ''}''"

text \<open>
  \<^verbatim>\<open>str(v)\<close>, as an f-string applies it, with \<open>rp\<close> for \<^verbatim>\<open>repr\<close>. The text of
  a string is the string itself, and the constants have fixed names. For numbers, lists
  and dictionaries the text is that of \<^verbatim>\<open>repr\<close>.
\<close>

fun py_str :: "(json \<Rightarrow> string) \<Rightarrow> json \<Rightarrow> string" where
  "py_str rp (JStr s) = s"
| "py_str rp JNull = ''None''"
| "py_str rp (JBool b) = (if b then ''True'' else ''False'')"
| "py_str rp v = rp v"

subsection \<open>Writing a log line\<close>

text \<open>
  \<^verbatim>\<open>log_result\<close>, lines 102 to 110. \<open>geo_code\<close> is the text the f-string makes
  of the key (\<open>str_key\<close> below gives it for the keys of a table); \<open>osid\<close> and
  \<open>wf_id\<close> are decoded values or \<^verbatim>\<open>None\<close>; \<open>timestamp\<close> is the text of
  \<^verbatim>\<open>datetime.now().strftime('%Y-%m-%d %H:%M:%S')\<close>. The log file is its content, a
  string; a file that does not exist yet reads as the empty string, and opening it for
  append creates it.
\<close>

definition or_empty :: "(json \<Rightarrow> string) \<Rightarrow> json \<Rightarrow> string" where
  "or_empty rp v = (if truthy v then py_str rp v else [])"

definition log_entry :: "(json \<Rightarrow> string) \<Rightarrow> string \<Rightarrow> string \<Rightarrow> string \<Rightarrow> json \<Rightarrow> json \<Rightarrow> string \<Rightarrow> string" where
  "log_entry rp geo_code status message osid wf_id timestamp =
     geo_code @ [PIPE] @ status @ [PIPE] @ message @ [PIPE] @ or_empty rp osid @ [PIPE]
       @ or_empty rp wf_id @ [PIPE] @ timestamp @ [LF]"

definition log_result :: "(json \<Rightarrow> string) \<Rightarrow> string \<Rightarrow> string \<Rightarrow> string \<Rightarrow> json \<Rightarrow> json \<Rightarrow> string \<Rightarrow> string \<Rightarrow> string" where
  "log_result rp geo_code status message osid wf_id timestamp log_file =
     log_file @ log_entry rp geo_code status message osid wf_id timestamp"

subsection \<open>Reading the log\<close>

text \<open>
  \<^verbatim>\<open>for line in f\<close> on a file opened in text mode: universal newlines turn CR LF and
  a lone CR into LF, and every line but possibly the last ends with LF.
\<close>

fun universal_newlines :: "string \<Rightarrow> string" where
  "universal_newlines [] = []"
| "universal_newlines [c] = (if c = CR then [LF] else [c])"
| "universal_newlines (c # d # cs) =
     (if c = CR then
        (if d = LF then LF # universal_newlines cs else LF # universal_newlines (d # cs))
      else c # universal_newlines (d # cs))"

fun split_lines :: "string \<Rightarrow> string list" where
  "split_lines [] = []"
| "split_lines (c # cs) =
     (if c = LF then [c] # split_lines cs
      else (case split_lines cs of
              [] \<Rightarrow> [[c]]
            | l # ls \<Rightarrow> (c # l) # ls))"

definition file_lines :: "string \<Rightarrow> string list" where
  "file_lines content = split_lines (universal_newlines content)"

text \<open>\<^verbatim>\<open>load_uploaded_records\<close>, lines 90 to 99.\<close>

definition uploaded_step :: "string \<Rightarrow> string set \<Rightarrow> string set" where
  "uploaded_step line uploaded =
     (let parts = py_split PIPE (strip line)
      in if 3 \<le> length parts \<and> parts ! 1 = ''SUCCESS'' then insert (parts ! 0) uploaded
         else uploaded)"

definition load_uploaded_records :: "string \<Rightarrow> string set" where
  "load_uploaded_records log_file = fold uploaded_step (file_lines log_file) {}"

text \<open>\<^verbatim>\<open>get_upload_stats\<close>, lines 113 to 131.\<close>

record stats =
  success :: nat
  failed :: nat
  duplicate :: nat

definition stats_step :: "string \<Rightarrow> stats \<Rightarrow> stats" where
  "stats_step line st =
     (let parts = py_split PIPE (strip line)
      in if 2 \<le> length parts then
           (if parts ! 1 = ''SUCCESS'' then st\<lparr>success := success st + 1\<rparr>
            else if parts ! 1 = ''DUPLICATE'' then st\<lparr>duplicate := duplicate st + 1\<rparr>
            else if parts ! 1 = ''FAILED'' then st\<lparr>failed := failed st + 1\<rparr>
            else st)
         else st)"

definition get_upload_stats :: "string \<Rightarrow> stats" where
  "get_upload_stats log_file =
     fold stats_step (file_lines log_file) \<lparr>success = 0, failed = 0, duplicate = 0\<rparr>"

section \<open>Credentials and the submission of one record\<close>

subsection \<open>Exceptions\<close>

text \<open>
  A raised exception is a value. The only distinction the program makes is between
  \<^verbatim>\<open>requests.exceptions.Timeout\<close> and every other \<^verbatim>\<open>Exception\<close>; each carries
  its text \<^verbatim>\<open>str(e)\<close>.
\<close>

datatype exc = Timeout string | Fault string

fun str_exc :: "exc \<Rightarrow> string" where
  "str_exc (Timeout m) = m"
| "str_exc (Fault m) = m"

definition quoted :: "string \<Rightarrow> string" where
  "quoted s = CHR 0x27 # s @ [CHR 0x27]"

text \<open>\<^verbatim>\<open>KeyError(k)\<close>: its text is the key in quotes.\<close>

definition key_error :: "string \<Rightarrow> exc" where
  "key_error k = Fault (quoted k)"

fun type_name :: "json \<Rightarrow> string" where
  "type_name JNull = ''NoneType''"
| "type_name (JBool b) = ''bool''"
| "type_name (JInt i) = ''int''"
| "type_name (JFloat x) = ''float''"
| "type_name (JStr s) = ''str''"
| "type_name (JArr xs) = ''list''"
| "type_name (JObj kvs) = ''dict''"

text \<open>\<^verbatim>\<open>v[k]\<close> for a string key: a \<^verbatim>\<open>KeyError\<close> on a dictionary without the key, a
  \<^verbatim>\<open>TypeError\<close> on everything that is not a dictionary.\<close>

fun subscript :: "json \<Rightarrow> string \<Rightarrow> exc + json" where
  "subscript (JObj kvs) k = (case map_of kvs k of None \<Rightarrow> Inl (key_error k) | Some v \<Rightarrow> Inr v)"
| "subscript (JStr s) k = Inl (Fault (''string indices must be integers, not '' @ quoted ''str''))"
| "subscript (JArr xs) k = Inl (Fault ''list indices must be integers or slices, not str'')"
| "subscript v k = Inl (Fault (quoted (type_name v) @ '' object is not subscriptable''))"

text \<open>\<^verbatim>\<open>v.get(k)\<close>: \<^verbatim>\<open>None\<close> for a missing key, an \<^verbatim>\<open>AttributeError\<close> on
  everything that is not a dictionary.\<close>

fun py_get :: "json \<Rightarrow> string \<Rightarrow> exc + json" where
  "py_get (JObj kvs) k = Inr (case map_of kvs k of None \<Rightarrow> JNull | Some v \<Rightarrow> v)"
| "py_get v k =
     Inl (Fault (quoted (type_name v) @ '' object has no attribute '' @ quoted ''get''))"

text \<open>
  \<^verbatim>\<open>t + v\<close> for a float \<open>t\<close>: defined on numbers and truth values. An integer is
  converted to a float first, which raises \<^verbatim>\<open>OverflowError\<close> when it rounds to a
  value beyond the largest float, that is from \<open>2 ^ 1024 - 2 ^ 970\<close> on in absolute
  value.
\<close>

definition float_limit :: int where
  "float_limit = 2 ^ 1024 - 2 ^ 970"

fun add_float :: "real \<Rightarrow> json \<Rightarrow> exc + real" where
  "add_float t (JInt i) =
     (if float_limit \<le> \<bar>i\<bar> then Inl (Fault ''int too large to convert to float'')
      else Inr (t + of_int i))"
| "add_float t (JFloat x) = Inr (t + x)"
| "add_float t (JBool b) = Inr (t + (if b then 1 else 0))"
| "add_float t v =
     Inl (Fault (''unsupported operand type(s) for +: '' @ quoted ''float'' @ '' and ''
                   @ quoted (type_name v)))"

subsection \<open>The remote endpoints and the state of a run\<close>

text \<open>
  An HTTP response as the program reads it: the status code, the body text (the field
  \<^verbatim>\<open>text\<close> of the source, here \<open>body_text\<close>) and what \<^verbatim>\<open>response.json()\<close> gives,
  which is the decoded body or an exception with a text. A call of \<^verbatim>\<open>requests\<close> returns
  a response or raises.
\<close>

record response =
  status_code :: int
  body_text :: string
  json_body :: "string + json"

datatype net_result = Resp response | Raises exc

text \<open>
  Cells of the input table as \<^verbatim>\<open>pandas\<close> presents them: a missing value (NaN) or a
  string, a number or a truth value. The payload built from a row is a dictionary of
  cells and nested dictionaries.
\<close>

datatype val = VStr string | VNum real | VBool bool

datatype cell = NaN | Val val

datatype payload = PCell cell | PObj "(string \<times> payload) list"

text \<open>The headers of a request carry the access token after \<^verbatim>\<open>Bearer\<close>.\<close>

datatype headers = Bearer json

datatype request =
    TokenPost
  | CreatePost headers payload
  | FetchGet headers json

text \<open>
  Everything outside the program is the environment \<open>env\<close>: the text Python gives a
  float (\<open>float_repr\<close>) and \<^verbatim>\<open>float\<close> of a string (\<open>Inl\<close> is the text of the
  \<^verbatim>\<open>ValueError\<close>), the answers of the three endpoints in the order of the calls made
  to each, the readings of \<^verbatim>\<open>time.time()\<close>, the formatted time stamps of
  \<^verbatim>\<open>datetime.now()\<close> in \<^verbatim>\<open>log_result\<close>, the platform's
  \<^verbatim>\<open>datetime.fromtimestamp\<close> followed by \<^verbatim>\<open>strftime\<close> (\<open>Inl\<close> is the text of the
  exception it raises for a time stamp that the platform cannot convert), and the
  operator's answer at the prompt. Every call to an endpoint is taken to come back, with
  a response or an exception, and a request is entered in the trace when the call is
  made, whatever comes back.
\<close>

record env =
  float_repr :: "real \<Rightarrow> string"
  float_str :: "string \<Rightarrow> string + real"
  token_ep :: "nat \<Rightarrow> net_result"
  create_ep :: "nat \<Rightarrow> net_result"
  fetch_ep :: "nat \<Rightarrow> net_result"
  clock :: "nat \<Rightarrow> real"
  now_text :: "nat \<Rightarrow> string"
  fromtimestamp :: "real \<Rightarrow> string + string"
  answer :: string

text \<open>\<^verbatim>\<open>repr\<close> of a decoded value in an environment.\<close>

definition repr :: "env \<Rightarrow> json \<Rightarrow> string" where
  "repr e = py_repr (float_repr e)"

text \<open>
  The state: \<^verbatim>\<open>TOKEN_DATA\<close>, how many answers and readings have been consumed, how
  often \<^verbatim>\<open>time.sleep(2)\<close> ran, the requests made so far, and the content of the log
  file.
\<close>

record world =
  access_token :: json
  expires_at :: real
  n_token :: nat
  n_create :: nat
  n_fetch :: nat
  n_clock :: nat
  n_now :: nat
  sleeps :: nat
  trace :: "request list"
  log_file :: string

subsection \<open>The access token\<close>

text \<open>\<^verbatim>\<open>get_token\<close>, lines 56 to 73. The token is stored before the expiry is
  computed.\<close>

definition get_token :: "env \<Rightarrow> world \<Rightarrow> (exc + bool) \<times> world" where
  "get_token e w =
     (let w1 = w\<lparr>n_token := n_token w + 1, trace := trace w @ [TokenPost]\<rparr>
      in case token_ep e (n_token w) of
           Raises x \<Rightarrow> (Inl x, w1)
         | Resp response \<Rightarrow>
             if status_code response = 200 then
               (case json_body response of
                  Inl m \<Rightarrow> (Inl (Fault m), w1)
                | Inr data \<Rightarrow>
                    (case subscript data ''access_token'' of
                       Inl x \<Rightarrow> (Inl x, w1)
                     | Inr tok \<Rightarrow>
                         (let w2 = w1\<lparr>access_token := tok, n_clock := n_clock w1 + 1\<rparr>;
                              t = clock e (n_clock w1)
                          in case subscript data ''expires_in'' of
                               Inl x \<Rightarrow> (Inl x, w2)
                             | Inr v \<Rightarrow>
                                 (case add_float t v of
                                    Inl x \<Rightarrow> (Inl x, w2)
                                  | Inr s \<Rightarrow> (Inr True, w2\<lparr>expires_at := s - 30\<rparr>)))))
             else (Inr False, w1))"

text \<open>\<^verbatim>\<open>get_auth_headers\<close>, lines 76 to 87. The clock is read only when a token is
  cached.\<close>

definition refresh :: "env \<Rightarrow> world \<Rightarrow> (exc + headers) \<times> world" where
  "refresh e w =
     (case get_token e w of
        (Inl x, w1) \<Rightarrow> (Inl x, w1)
      | (Inr ok, w1) \<Rightarrow>
          if ok then (Inr (Bearer (access_token w1)), w1)
          else (Inl (Fault ''Failed to obtain access token''), w1))"

definition get_auth_headers :: "env \<Rightarrow> world \<Rightarrow> (exc + headers) \<times> world" where
  "get_auth_headers e w =
     (if access_token w = JNull then refresh e w
      else (let w1 = w\<lparr>n_clock := n_clock w + 1\<rparr>
            in if expires_at w \<le> clock e (n_clock w) then refresh e w1
               else (Inr (Bearer (access_token w1)), w1)))"

subsection \<open>\<^verbatim>\<open>upload_facility\<close>\<close>

text \<open>
  The dictionary \<^verbatim>\<open>upload_facility\<close> returns. The keys \<^verbatim>\<open>osid\<close> and \<^verbatim>\<open>wfId\<close> are
  present only on success; the caller reads them with \<^verbatim>\<open>result.get\<close>, so an absent
  key is \<open>JNull\<close>.
\<close>

record result =
  status :: string
  osid :: json
  wfId :: json
  message :: string

definition max_retries :: nat where
  "max_retries = 3"

definition failed_result :: "string \<Rightarrow> result" where
  "failed_result m = \<lparr>status = ''FAILED'', osid = JNull, wfId = JNull, message = m\<rparr>"

text \<open>Lines 215 to 228: the response to the creation request has status 200.\<close>

definition osid_of :: "json \<Rightarrow> exc + json" where
  "osid_of res =
     (case subscript res ''result'' of
        Inl x \<Rightarrow> Inl x
      | Inr a \<Rightarrow>
          (case subscript a ''WaterFacility'' of
             Inl x \<Rightarrow> Inl x
           | Inr b \<Rightarrow> subscript b ''osid''))"

definition on_created :: "env \<Rightarrow> headers \<Rightarrow> response \<Rightarrow> world \<Rightarrow> (exc + result) \<times> world" where
  "on_created e hdrs response w =
     (case json_body response of
        Inl m \<Rightarrow> (Inl (Fault m), w)
      | Inr res \<Rightarrow>
          (case osid_of res of
             Inl x \<Rightarrow> (Inl x, w)
           | Inr oid \<Rightarrow>
               (let w1 = w\<lparr>n_fetch := n_fetch w + 1, trace := trace w @ [FetchGet hdrs oid]\<rparr>
                in case fetch_ep e (n_fetch w) of
                     Raises x \<Rightarrow> (Inl x, w1)
                   | Resp fetch_response \<Rightarrow>
                       if status_code fetch_response = 200 then
                         (case json_body fetch_response of
                            Inl m \<Rightarrow> (Inl (Fault m), w1)
                          | Inr j \<Rightarrow>
                              (case py_get j ''wfId'' of
                                 Inl x \<Rightarrow> (Inl x, w1)
                               | Inr wf_id \<Rightarrow>
                                   (Inr \<lparr>status = ''SUCCESS'', osid = oid, wfId = wf_id,
                                         message = ''Created''\<rparr>, w1)))
                       else (Inr \<lparr>status = ''SUCCESS'', osid = oid, wfId = JNull,
                                  message = ''Created''\<rparr>, w1))))"

text \<open>Lines 238 to 247: the response has status 500. The bare \<^verbatim>\<open>except\<close> swallows a
  body that is not JSON.\<close>

definition on_server_error :: "env \<Rightarrow> response \<Rightarrow> result" where
  "on_server_error e response =
     (let server_error = failed_result (''Server error: '' @ take 200 (body_text response))
      in case json_body response of
           Inl m \<Rightarrow> server_error
         | Inr error_data \<Rightarrow>
             (let error_msg = py_str (repr e) error_data
              in if py_in ''duplicate'' (lower error_msg) \<or> py_in ''unique'' (lower error_msg)
                 then \<lparr>status = ''DUPLICATE'', osid = JNull, wfId = JNull,
                       message = ''Duplicate wfId''\<rparr>
                 else server_error))"

text \<open>
  Lines 206 to 250, the body of the \<^verbatim>\<open>try\<close>: it returns a dictionary, or it reaches
  the recursive call of line 234 (\<open>Retry\<close>, after \<^verbatim>\<open>expires_at\<close> was set to 0), or it
  raises. The recursive call itself returns a dictionary and never raises, so it is made
  by \<open>upload_facility\<close> below.
\<close>

datatype step = Return result | Retry

definition attempt :: "env \<Rightarrow> payload \<Rightarrow> nat \<Rightarrow> world \<Rightarrow> (exc + step) \<times> world" where
  "attempt e facility retry_count w =
     (case get_auth_headers e w of
        (Inl x, w1) \<Rightarrow> (Inl x, w1)
      | (Inr hdrs, w1) \<Rightarrow>
          (let w2 = w1\<lparr>n_create := n_create w1 + 1,
                       trace := trace w1 @ [CreatePost hdrs facility]\<rparr>
           in case create_ep e (n_create w1) of
                Raises x \<Rightarrow> (Inl x, w2)
              | Resp response \<Rightarrow>
                  if status_code response = 200 then
                    (case on_created e hdrs response w2 of
                       (Inl x, w3) \<Rightarrow> (Inl x, w3)
                     | (Inr r, w3) \<Rightarrow> (Inr (Return r), w3))
                  else if status_code response = 401 then
                    (if retry_count < max_retries then (Inr Retry, w2\<lparr>expires_at := 0\<rparr>)
                     else (Inr (Return (failed_result
                             (''Auth failed after '' @ str_int (int max_retries) @ '' retries''))), w2))
                  else if status_code response = 500 then
                    (Inr (Return (on_server_error e response)), w2)
                  else
                    (Inr (Return (failed_result
                       (''HTTP '' @ str_int (status_code response) @ '': ''
                          @ take 200 (body_text response)))), w2)))"

text \<open>Lines 201 to 259: the handlers, and the retry by calling itself.\<close>

function upload_facility :: "env \<Rightarrow> payload \<Rightarrow> nat \<Rightarrow> world \<Rightarrow> result \<times> world" where
  "upload_facility e facility retry_count w =
     (case attempt e facility retry_count w of
        (Inr (Return r), w1) \<Rightarrow> (r, w1)
      | (Inr Retry, w1) \<Rightarrow> upload_facility e facility (retry_count + 1) w1
      | (Inl (Timeout m), w1) \<Rightarrow>
          if retry_count < max_retries
          then upload_facility e facility (retry_count + 1) (w1\<lparr>sleeps := sleeps w1 + 1\<rparr>)
          else (failed_result ''Timeout after retries'', w1)
      | (Inl (Fault m), w1) \<Rightarrow> (failed_result (take 200 m), w1))"
  by pat_completeness auto

termination
  by (relation "measure (\<lambda>(e, facility, retry_count, w). max_retries - retry_count)")
     (auto simp: attempt_def Let_def split: prod.splits sum.splits net_result.splits if_splits)

declare upload_facility.simps [simp del]

section \<open>The driver\<close>

subsection \<open>From a row of the table to a payload\<close>

text \<open>
  The key of a row, \<^verbatim>\<open>row['geo_code']\<close>, as \<^verbatim>\<open>pandas\<close> presents it: a string
  when the column is read as text, a whole number when every key in the file is one, a
  float, a truth value, or NaN for a missing key. \<^verbatim>\<open>str\<close> of a key is what the
  payload and the log receive.
\<close>

datatype key = KStr string | KInt int | KFloat real | KBool bool | KNaN

fun str_key :: "(real \<Rightarrow> string) \<Rightarrow> key \<Rightarrow> string" where
  "str_key fr (KStr s) = s"
| "str_key fr (KInt i) = str_int i"
| "str_key fr (KFloat x) = fr x"
| "str_key fr (KBool b) = (if b then ''True'' else ''False'')"
| "str_key fr KNaN = ''nan''"

text \<open>
  A row has its key \<^verbatim>\<open>geo_code\<close> and the cells of the other columns by name;
  \<open>None\<close> is a column the table does not have. The table is a list of rows, so it
  has the column \<^verbatim>\<open>geo_code\<close>.
\<close>

record row =
  geo_code :: key
  cells :: "string \<Rightarrow> cell option"

text \<open>\<^verbatim>\<open>row[k]\<close> raises a \<^verbatim>\<open>KeyError\<close> for a missing column; \<^verbatim>\<open>row.get(k)\<close> gives
  \<^verbatim>\<open>None\<close>, for which \<^verbatim>\<open>pd.notna\<close> is false as it is for NaN.\<close>

definition row_item :: "row \<Rightarrow> string \<Rightarrow> exc + cell" where
  "row_item r k = (case cells r k of None \<Rightarrow> Inl (key_error k) | Some c \<Rightarrow> Inr c)"

fun notna :: "cell option \<Rightarrow> bool" where
  "notna None = False"
| "notna (Some NaN) = False"
| "notna (Some (Val v)) = True"

fun val_truthy :: "val \<Rightarrow> bool" where
  "val_truthy (VStr s) = (s \<noteq> [])"
| "val_truthy (VNum x) = (x \<noteq> 0)"
| "val_truthy (VBool b) = b"

text \<open>\<^verbatim>\<open>float(v)\<close>: a \<^verbatim>\<open>ValueError\<close> for a string that is not a number.\<close>

fun py_float :: "env \<Rightarrow> val \<Rightarrow> exc + real" where
  "py_float e (VNum x) = Inr x"
| "py_float e (VBool b) = Inr (if b then 1 else 0)"
| "py_float e (VStr s) = (case float_str e s of Inl m \<Rightarrow> Inl (Fault m) | Inr x \<Rightarrow> Inr x)"

definition bind_exc :: "exc + 'a \<Rightarrow> ('a \<Rightarrow> exc + 'b) \<Rightarrow> exc + 'b" where
  "bind_exc m f = (case m of Inl x \<Rightarrow> Inl x | Inr a \<Rightarrow> f a)"

text \<open>Lines 144 to 146: \<^verbatim>\<open>float(row[k]) if pd.notna(row[k]) else None\<close>; an entry that
  is \<^verbatim>\<open>None\<close> is removed in lines 152 to 154.\<close>

definition coordinate :: "env \<Rightarrow> row \<Rightarrow> string \<Rightarrow> string \<Rightarrow> exc + (string \<times> payload) list" where
  "coordinate e r k name =
     bind_exc (row_item r k) (\<lambda>c.
       case c of
         NaN \<Rightarrow> Inr []
       | Val v \<Rightarrow> bind_exc (py_float e v) (\<lambda>x. Inr [(name, PCell (Val (VNum x)))]))"

text \<open>The optional fields: \<^verbatim>\<open>if pd.notna(row.get(k)): facility[name] = row[k]\<close>, the same
  with \<^verbatim>\<open>and row[k]\<close> in the test, and the same with \<^verbatim>\<open>float(row[k])\<close> stored.\<close>

definition opt_field :: "row \<Rightarrow> string \<Rightarrow> string \<Rightarrow> (string \<times> payload) list" where
  "opt_field r k name =
     (case cells r k of Some (Val v) \<Rightarrow> [(name, PCell (Val v))] | _ \<Rightarrow> [])"

definition opt_truthy_field :: "row \<Rightarrow> string \<Rightarrow> string \<Rightarrow> (string \<times> payload) list" where
  "opt_truthy_field r k name =
     (case cells r k of
        Some (Val v) \<Rightarrow> (if val_truthy v then [(name, PCell (Val v))] else [])
      | _ \<Rightarrow> [])"

definition opt_float_field :: "env \<Rightarrow> row \<Rightarrow> string \<Rightarrow> string \<Rightarrow> exc + (string \<times> payload) list" where
  "opt_float_field e r k name =
     (case cells r k of
        Some (Val v) \<Rightarrow> bind_exc (py_float e v) (\<lambda>x. Inr [(name, PCell (Val (VNum x)))])
      | _ \<Rightarrow> Inr [])"

text \<open>Line 178: \<^verbatim>\<open>str(row['has_depth_info']).lower() == 'yes'\<close>. The text of a number
  or of a truth value is never \<^verbatim>\<open>yes\<close>.\<close>

definition opt_yes_field :: "row \<Rightarrow> string \<Rightarrow> string \<Rightarrow> (string \<times> payload) list" where
  "opt_yes_field r k name =
     (case cells r k of
        Some (Val v) \<Rightarrow>
          [(name, PCell (Val (VBool (case v of VStr s \<Rightarrow> lower s = ''yes'' | _ \<Rightarrow> False))))]
      | _ \<Rightarrow> [])"

text \<open>\<^verbatim>\<open>row_to_facility\<close>, lines 134 to 198. The exceptions are raised in the order of
  the source: the required columns, the coordinates, then the two optional numbers.\<close>

definition row_to_facility :: "env \<Rightarrow> row \<Rightarrow> exc + payload" where
  "row_to_facility e r =
     bind_exc (row_item r ''water_point_type'') (\<lambda>water_point_type.
     bind_exc (row_item r ''county'') (\<lambda>county.
     bind_exc (row_item r ''district'') (\<lambda>district.
     bind_exc (row_item r ''community'') (\<lambda>community.
     bind_exc (coordinate e r ''lat'' ''lat'') (\<lambda>lat.
     bind_exc (coordinate e r ''lon'' ''lon'') (\<lambda>lon.
     bind_exc (coordinate e r ''elevation'' ''elevation'') (\<lambda>elevation.
     bind_exc (opt_float_field e r ''num_taps'' ''numTaps'') (\<lambda>num_taps.
     bind_exc (opt_float_field e r ''depth_metres'' ''depthMetres'') (\<lambda>depth_metres.
       Inr (PObj
         ([(''geoCode'', PCell (Val (VStr (str_key (float_repr e) (geo_code r))))),
           (''waterPointType'', PCell water_point_type),
           (''location'', PObj
              ([(''county'', PCell county),
                (''district'', PCell district),
                (''community'', PCell community)]
               @ (if lat @ lon @ elevation = [] then []
                  else [(''coordinates'', PObj (lat @ lon @ elevation))])))]
          @ opt_field r ''water_point_type_other'' ''waterPointTypeOther''
          @ opt_truthy_field r ''extraction_type'' ''extractionType''
          @ opt_field r ''extraction_type_other'' ''extractionTypeOther''
          @ opt_truthy_field r ''pump_type'' ''pumpType''
          @ opt_field r ''pump_type_other'' ''pumpTypeOther''
          @ num_taps
          @ opt_yes_field r ''has_depth_info'' ''hasDepthInfo''
          @ depth_metres
          @ opt_truthy_field r ''installer'' ''installer''
          @ opt_field r ''installer_other'' ''installerOther''
          @ opt_truthy_field r ''owner'' ''owner''
          @ opt_truthy_field r ''funder'' ''funder''
          @ opt_truthy_field r ''photo_url'' ''photoUrl'')))))))))))"

text \<open>The key a payload carries.\<close>

fun geoCode :: "payload \<Rightarrow> payload option" where
  "geoCode (PObj kvs) = map_of kvs ''geoCode''"
| "geoCode (PCell c) = None"

subsection \<open>\<^verbatim>\<open>bulk_upload\<close>\<close>

text \<open>
  \<^verbatim>\<open>log_result\<close> as the driver calls it, with the key of the row: the f-string of
  line 107 writes \<^verbatim>\<open>str\<close> of the key, the time stamp is the next one of the
  environment, and the line goes to the end of the log file.
\<close>

definition write_log :: "env \<Rightarrow> key \<Rightarrow> string \<Rightarrow> string \<Rightarrow> json \<Rightarrow> json \<Rightarrow> world \<Rightarrow> world" where
  "write_log e k st msg oid wf_id w =
     w\<lparr>n_now := n_now w + 1,
       log_file := log_result (repr e) (str_key (float_repr e) k) st msg oid wf_id
                     (now_text e (n_now w)) (log_file w)\<rparr>"

text \<open>The counters of a run, returned at its end. Console output and the duration are
  not part of the model.\<close>

record summary =
  total :: nat
  success_count :: nat
  duplicate_count :: nat
  failed_count :: nat

text \<open>Lines 276 to 304, the body of the loop for one row.\<close>

definition process_row :: "env \<Rightarrow> row \<Rightarrow> summary \<times> world \<Rightarrow> summary \<times> world" where
  "process_row e r sw =
     (case sw of (s, w) \<Rightarrow>
        (case row_to_facility e r of
           Inl x \<Rightarrow>
             (s\<lparr>failed_count := failed_count s + 1\<rparr>,
              write_log e (geo_code r) ''FAILED'' (''Transform error: '' @ str_exc x) JNull JNull w)
         | Inr facility \<Rightarrow>
             (case upload_facility e facility 0 w of (res, w1) \<Rightarrow>
                (if status res = ''SUCCESS'' then s\<lparr>success_count := success_count s + 1\<rparr>
                 else if status res = ''DUPLICATE'' then s\<lparr>duplicate_count := duplicate_count s + 1\<rparr>
                 else s\<lparr>failed_count := failed_count s + 1\<rparr>,
                 write_log e (geo_code r) (status res) (message res) (osid res) (wfId res) w1))))"

text \<open>\<^verbatim>\<open>bulk_upload\<close>, lines 262 to 338: the rows in the order of the table.\<close>

definition bulk_upload :: "env \<Rightarrow> row list \<Rightarrow> world \<Rightarrow> summary \<times> world" where
  "bulk_upload e df w =
     fold (process_row e) df
       (\<lparr>total = length df, success_count = 0, duplicate_count = 0, failed_count = 0\<rparr>, w)"

subsection \<open>The progress line\<close>

text \<open>
  Lines 307 to 311. Division and remainder raise \<^verbatim>\<open>ZeroDivisionError\<close> when the
  divisor is zero. The result is \<open>None\<close> when no progress line is due, and the rate
  with the remaining minutes otherwise. Times are real numbers.
\<close>

definition py_mod :: "int \<Rightarrow> int \<Rightarrow> exc + int" where
  "py_mod a b =
     (if b = 0 then Inl (Fault ''integer division or modulo by zero'') else Inr (a mod b))"

definition py_div :: "real \<Rightarrow> real \<Rightarrow> exc + real" where
  "py_div a b = (if b = 0 then Inl (Fault ''float division by zero'') else Inr (a / b))"

definition progress :: "int \<Rightarrow> int \<Rightarrow> int \<Rightarrow> real \<Rightarrow> exc + (real \<times> real) option" where
  "progress idx total_rows batch_size elapsed =
     bind_exc (py_mod idx batch_size) (\<lambda>m.
       if m = 0 \<or> idx = total_rows then
         bind_exc (if 0 < elapsed then py_div (of_int idx) elapsed else Inr 0) (\<lambda>rate.
         bind_exc (if 0 < rate then py_div (of_int (total_rows - idx)) rate else Inr 0)
           (\<lambda>eta_seconds.
              Inr (Some (rate, eta_seconds / 60))))
       else Inr None)"

subsection \<open>\<^verbatim>\<open>main\<close>\<close>

text \<open>
  Line 377. \<^verbatim>\<open>isin\<close> compares the keys of the column with the strings read from the
  log: a key that is not a string equals none of them. The rows kept are those for which
  \<^verbatim>\<open>isin\<close> is false.
\<close>

fun isin :: "key \<Rightarrow> string set \<Rightarrow> bool" where
  "isin (KStr s) vals = (s \<in> vals)"
| "isin k vals = False"

definition records_to_upload :: "string set \<Rightarrow> row list \<Rightarrow> row list" where
  "records_to_upload uploaded_records df =
     filter (\<lambda>r. \<not> isin (geo_code r) uploaded_records) df"

text \<open>
  \<^verbatim>\<open>main\<close>, lines 341 to 396, for the table \<open>df\<close> that \<^verbatim>\<open>pd.read_csv\<close> returned.
  An exception of the first token request is not caught; a refused token ends the
  process with exit code 1. Line 358 formats the expiry of the token, and the exception
  \<^verbatim>\<open>datetime.fromtimestamp\<close> raises for a time stamp out of the platform's range is
  not caught either. The client secret and what is printed, the statistics of line 361
  among it, do not change the state and are left out.
\<close>

datatype outcome = Crashed exc | Exited int | Finished

definition main :: "env \<Rightarrow> row list \<Rightarrow> world \<Rightarrow> outcome \<times> world" where
  "main e df w =
     (case get_token e w of
        (Inl x, w1) \<Rightarrow> (Crashed x, w1)
      | (Inr ok, w1) \<Rightarrow>
          if \<not> ok then (Exited 1, w1)
          else
            (case fromtimestamp e (expires_at w1) of
               Inl m \<Rightarrow> (Crashed (Fault m), w1)
             | Inr expires \<Rightarrow>
                 (let uploaded_records = load_uploaded_records (log_file w1);
                      df_to_upload = records_to_upload uploaded_records df
                  in if length df_to_upload = 0 then (Finished, w1)
                     else if lower (answer e) \<noteq> ''y'' then (Finished, w1)
                     else (Finished, snd (bulk_upload e df_to_upload w1)))))"

section \<open>Vocabulary of the properties\<close>

text \<open>
  The definitions below state the properties that follow; none of them is part of the
  program. They name the outcomes, classify the answers of the endpoints, fix concrete
  environments for instances, and describe the entries of the log.
\<close>

text \<open>The three outcomes of a submission, and what one more entry with a given outcome
  adds to the counters.\<close>

definition outcomes :: "string set" where
  "outcomes = {''SUCCESS'', ''DUPLICATE'', ''FAILED''}"

definition count_outcome :: "string \<Rightarrow> stats \<Rightarrow> stats" where
  "count_outcome st s =
     (if st = ''SUCCESS'' then s\<lparr>success := success s + 1\<rparr>
      else if st = ''DUPLICATE'' then s\<lparr>duplicate := duplicate s + 1\<rparr>
      else if st = ''FAILED'' then s\<lparr>failed := failed s + 1\<rparr>
      else s)"

text \<open>
  What an answer of an endpoint amounts to: its status code; a token request that is
  granted (status 200 with a body that has both fields, the second a number that a float
  can hold), for which \<open>grant\<close> gives the token and the seconds it is valid; a
  fetch that comes back with a response the program can read.
\<close>

definition status_of :: "net_result \<Rightarrow> int option" where
  "status_of a = (case a of Resp r \<Rightarrow> Some (status_code r) | Raises x \<Rightarrow> None)"

fun seconds :: "json \<Rightarrow> real option" where
  "seconds (JInt i) = (if float_limit \<le> \<bar>i\<bar> then None else Some (of_int i))"
| "seconds (JFloat x) = Some x"
| "seconds (JBool b) = Some (if b then 1 else 0)"
| "seconds v = None"

definition grant :: "net_result \<Rightarrow> (json \<times> real) option" where
  "grant a =
     (case a of
        Raises x \<Rightarrow> None
      | Resp r \<Rightarrow>
          if status_code r = 200 then
            (case json_body r of
               Inl m \<Rightarrow> None
             | Inr data \<Rightarrow>
                 (case subscript data ''access_token'' of
                    Inl x \<Rightarrow> None
                  | Inr tok \<Rightarrow>
                      (case subscript data ''expires_in'' of
                         Inl x \<Rightarrow> None
                       | Inr v \<Rightarrow> (case seconds v of None \<Rightarrow> None | Some x \<Rightarrow> Some (tok, x)))))
          else None)"


definition fetch_answers :: "net_result \<Rightarrow> bool" where
  "fetch_answers a =
     (case a of
        Raises x \<Rightarrow> False
      | Resp r \<Rightarrow>
          (if status_code r = 200 then
             (case json_body r of
                Inl m \<Rightarrow> False
              | Inr j \<Rightarrow> (case py_get j ''wfId'' of Inl x \<Rightarrow> False | Inr v \<Rightarrow> True))
           else True))"

text \<open>A concrete environment, for instances: the endpoints answer from fixed lists and
  refuse the connection afterwards; the clock stands at 1000, and every time stamp can be
  formatted.\<close>

definition script :: "net_result list \<Rightarrow> nat \<Rightarrow> net_result" where
  "script answers n =
     (if n < length answers then answers ! n else Raises (Fault ''Connection refused''))"

definition demo_env :: "net_result list \<Rightarrow> net_result list \<Rightarrow> net_result list \<Rightarrow> env" where
  "demo_env tokens creations fetches =
     \<lparr>float_repr = (\<lambda>x. ''0.0''),
      float_str = (\<lambda>s. Inl ''could not convert string to float''),
      token_ep = script tokens,
      create_ep = script creations,
      fetch_ep = script fetches,
      clock = (\<lambda>n. 1000),
      now_text = (\<lambda>n. ''2024-05-01 10:00:00''),
      fromtimestamp = (\<lambda>t. Inr ''10:21:10''),
      answer = ''y''\<rparr>"

definition demo_world :: world where
  "demo_world =
     \<lparr>access_token = JStr ''t0'', expires_at = 2000,
      n_token = 0, n_create = 0, n_fetch = 0, n_clock = 0, n_now = 0, sleeps = 0,
      trace = [], log_file = []\<rparr>"

definition reply :: "int \<Rightarrow> string \<Rightarrow> string + json \<Rightarrow> net_result" where
  "reply code txt js = Resp \<lparr>status_code = code, body_text = txt, json_body = js\<rparr>"

definition demo_facility :: payload where
  "demo_facility = PObj [(''geoCode'', PCell (Val (VStr ''LBR-0001'')))]"

definition granted :: net_result where
  "granted = reply 200 ''{}'' (Inr (JObj [(''access_token'', JStr ''t1''), (''expires_in'', JInt 300)]))"

definition granted_as :: "string \<Rightarrow> int \<Rightarrow> net_result" where
  "granted_as tok secs =
     reply 200 ''{}'' (Inr (JObj [(''access_token'', JStr tok), (''expires_in'', JInt secs)]))"

definition created :: net_result where
  "created = reply 200 ''{}'' (Inr (JObj [(''result'', JObj [(''WaterFacility'', JObj [(''osid'', JStr ''1-ab'')])])]))"

definition refused :: net_result where
  "refused = reply 401 ''Unauthorized'' (Inl ''Expecting value: line 1 column 1 (char 0)'')"

definition not_found :: net_result where
  "not_found = reply 404 ''Not Found'' (Inl ''Expecting value: line 1 column 1 (char 0)'')"

text \<open>The payloads of the creation requests in a trace, what a step of a submission
  may change, and the result for a duplicate.\<close>

fun creations :: "request list \<Rightarrow> payload list" where
  "creations [] = []"
| "creations (CreatePost h p # rs) = p # creations rs"
| "creations (TokenPost # rs) = creations rs"
| "creations (FetchGet h oid # rs) = creations rs"

text \<open>What a step may change: it never touches the log, and it makes at most one request
  to the token endpoint and at most one creation request, the latter for the payload p.\<close>

definition frame :: "payload \<Rightarrow> world \<Rightarrow> world \<Rightarrow> bool" where
  "frame p w w' =
     (log_file w' = log_file w \<and> n_now w' = n_now w \<and> sleeps w' = sleeps w
      \<and> n_token w \<le> n_token w' \<and> n_token w' \<le> n_token w + 1
      \<and> n_create w \<le> n_create w' \<and> n_create w' \<le> n_create w + 1
      \<and> set (creations (trace w')) \<subseteq> set (creations (trace w)) \<union> {p})"

definition quiet :: "world \<Rightarrow> world \<Rightarrow> bool" where
  "quiet w w' =
     (log_file w' = log_file w \<and> n_now w' = n_now w \<and> sleeps w' = sleeps w
      \<and> n_token w \<le> n_token w' \<and> n_token w' \<le> n_token w + 1
      \<and> n_create w' = n_create w
      \<and> creations (trace w') = creations (trace w))"

definition duplicate_result :: result where
  "duplicate_result =
     \<lparr>status = ''DUPLICATE'', osid = JNull, wfId = JNull, message = ''Duplicate wfId''\<rparr>"

text \<open>An entry of the log as \<^verbatim>\<open>log_result\<close> receives it, the line it becomes, and the
  log that a list of entries becomes.\<close>

record entry =
  e_key :: string
  e_status :: string
  e_message :: string
  e_osid :: json
  e_wfId :: json
  e_time :: string

definition entry_line :: "(json \<Rightarrow> string) \<Rightarrow> entry \<Rightarrow> string" where
  "entry_line rp x =
     log_entry rp (e_key x) (e_status x) (e_message x) (e_osid x) (e_wfId x) (e_time x)"

definition written_log :: "(json \<Rightarrow> string) \<Rightarrow> entry list \<Rightarrow> string" where
  "written_log rp xs = concat (map (entry_line rp) xs)"

text \<open>The entry the loop body writes for a row, and the state it leaves.\<close>

definition row_entry :: "env \<Rightarrow> row \<Rightarrow> world \<Rightarrow> entry" where
  "row_entry e r w =
     (case row_to_facility e r of
        Inl x \<Rightarrow>
          \<lparr>e_key = str_key (float_repr e) (geo_code r), e_status = ''FAILED'',
           e_message = ''Transform error: '' @ str_exc x, e_osid = JNull, e_wfId = JNull,
           e_time = now_text e (n_now w)\<rparr>
      | Inr facility \<Rightarrow>
          (case upload_facility e facility 0 w of (res, w1) \<Rightarrow>
             \<lparr>e_key = str_key (float_repr e) (geo_code r), e_status = status res,
              e_message = message res,
              e_osid = osid res, e_wfId = wfId res, e_time = now_text e (n_now w1)\<rparr>))"

definition row_world :: "env \<Rightarrow> row \<Rightarrow> world \<Rightarrow> world" where
  "row_world e r w =
     snd (process_row e r
            (\<lparr>total = 0, success_count = 0, duplicate_count = 0, failed_count = 0\<rparr>, w))"

fun run_entries :: "env \<Rightarrow> row list \<Rightarrow> world \<Rightarrow> entry list" where
  "run_entries e [] w = []"
| "run_entries e (r # rs) w = row_entry e r w # run_entries e rs (row_world e r w)"

fun run_world :: "env \<Rightarrow> row list \<Rightarrow> world \<Rightarrow> world" where
  "run_world e [] w = w"
| "run_world e (r # rs) w = run_world e rs (row_world e r w)"

text \<open>Three records and an empty log: the first is created and its secondary identifier
  fetched, the second meets a unique constraint, the third has a latitude that is not a
  number.\<close>

definition demo_row :: "key \<Rightarrow> cell \<Rightarrow> row" where
  "demo_row k lat =
     \<lparr>geo_code = k,
      cells = map_of
        [(''water_point_type'', Val (VStr ''Hand pump'')),
         (''county'', Val (VStr ''Bong'')),
         (''district'', Val (VStr ''Jorquelleh'')),
         (''community'', Val (VStr ''Gbarnga'')),
         (''lat'', lat),
         (''lon'', Val (VNum (-9))),
         (''elevation'', NaN)]\<rparr>"

definition demo_run :: env where
  "demo_run =
     demo_env []
       [created,
        reply 500 ''{unique constraint violation}'' (Inr (JStr ''unique constraint violation''))]
       [reply 200 ''{}'' (Inr (JObj [(''wfId'', JStr ''X1'')]))]"

definition demo_table :: "row list" where
  "demo_table =
     [demo_row (KStr ''A'') (Val (VNum 7)), demo_row (KStr ''B'') NaN,
      demo_row (KStr ''C'') (Val (VStr ''north''))]"

text \<open>
  A text that does not begin with white space, entries whose lines are read back field by
  field (no \<^verbatim>\<open>|\<close> in the key and no line break in any field), the keys logged with
  SUCCESS, and the number of entries with a given outcome.
\<close>

definition unspaced :: "string \<Rightarrow> bool" where
  "unspaced s = (s = [] \<or> \<not> isspace (hd s))"

definition line_entry :: "(json \<Rightarrow> string) \<Rightarrow> entry \<Rightarrow> bool" where
  "line_entry rp x =
     (PIPE \<notin> set (e_key x) \<and> single_line (e_key x)
      \<and> e_status x \<in> outcomes \<and> single_line (e_message x)
      \<and> single_line (or_empty rp (e_osid x)) \<and> single_line (or_empty rp (e_wfId x))
      \<and> single_line (e_time x))"

definition success_keys :: "entry list \<Rightarrow> string list" where
  "success_keys xs = map e_key (filter (\<lambda>x. e_status x = ''SUCCESS'') xs)"

definition count_status :: "string \<Rightarrow> entry list \<Rightarrow> nat" where
  "count_status st xs = length (filter (\<lambda>x. e_status x = st) xs)"

text \<open>Field 1 of a line of the log as the readers split it (empty when the line has one
  field only), and the number of lines of a file with a given field 1.\<close>

definition outcome_field :: "string \<Rightarrow> string" where
  "outcome_field line =
     (let parts = py_split PIPE (strip line)
      in if 2 \<le> length parts then parts ! 1 else [])"

definition count_lines :: "string \<Rightarrow> string \<Rightarrow> nat" where
  "count_lines st content =
     length (filter (\<lambda>line. outcome_field line = st) (file_lines content))"

text \<open>An environment whose texts are free of line breaks where the log can receive them.\<close>

definition tidy_exc :: "exc \<Rightarrow> bool" where
  "tidy_exc x = single_line (take 200 (str_exc x))"

definition tidy_answer :: "net_result \<Rightarrow> bool" where
  "tidy_answer a =
     (case a of
        Raises x \<Rightarrow> tidy_exc x
      | Resp r \<Rightarrow>
          single_line (take 200 (body_text r))
          \<and> (case json_body r of Inl m \<Rightarrow> single_line (take 200 m) | Inr j \<Rightarrow> True))"

definition tidy_created :: "(json \<Rightarrow> string) \<Rightarrow> net_result \<Rightarrow> bool" where
  "tidy_created rp a =
     (case a of
        Raises x \<Rightarrow> True
      | Resp r \<Rightarrow>
          (case json_body r of
             Inl m \<Rightarrow> True
           | Inr j \<Rightarrow> (case osid_of j of Inl x \<Rightarrow> True | Inr oid \<Rightarrow> single_line (or_empty rp oid))))"

definition tidy_fetched :: "(json \<Rightarrow> string) \<Rightarrow> net_result \<Rightarrow> bool" where
  "tidy_fetched rp a =
     (case a of
        Raises x \<Rightarrow> True
      | Resp r \<Rightarrow>
          (case json_body r of
             Inl m \<Rightarrow> True
           | Inr j \<Rightarrow>
               (case py_get j ''wfId'' of Inl x \<Rightarrow> True | Inr v \<Rightarrow> single_line (or_empty rp v))))"

definition tidy :: "env \<Rightarrow> bool" where
  "tidy e =
     (\<forall>n. tidy_answer (token_ep e n) \<and> tidy_answer (create_ep e n) \<and> tidy_answer (fetch_ep e n)
          \<and> tidy_created (repr e) (create_ep e n) \<and> tidy_fetched (repr e) (fetch_ep e n)
          \<and> single_line (now_text e n))"

text \<open>
  A row that the log can receive: the text of its key has no \<^verbatim>\<open>|\<close> and no line
  break, and so has the text of the exception when its transform raises. A key that is
  read back as written: a string that does not begin with white space.
\<close>

definition loggable :: "env \<Rightarrow> row \<Rightarrow> bool" where
  "loggable e r =
     (PIPE \<notin> set (str_key (float_repr e) (geo_code r))
      \<and> single_line (str_key (float_repr e) (geo_code r))
      \<and> (case row_to_facility e r of Inl x \<Rightarrow> single_line (str_exc x) | Inr p \<Rightarrow> True))"

definition tidy_rows :: "env \<Rightarrow> row list \<Rightarrow> bool" where
  "tidy_rows e df = (\<forall>r\<in>set df. loggable e r)"

definition text_key :: "key \<Rightarrow> bool" where
  "text_key k = (case k of KStr s \<Rightarrow> unspaced s | _ \<Rightarrow> False)"

text \<open>
  A text that \<^verbatim>\<open>repr\<close> shows as it is (printable, without quotes and backslashes),
  and a decoded value that mentions a text: in a string or in the key of a dictionary,
  at any depth.
\<close>

definition plain :: "string \<Rightarrow> bool" where
  "plain s = (\<forall>c\<in>set s. printable c \<and> c \<noteq> CHR 0x27 \<and> c \<noteq> CHR 0x22 \<and> c \<noteq> CHR 0x5C)"

fun mentions :: "string \<Rightarrow> json \<Rightarrow> bool" where
  "mentions s (JStr t) = py_in s t"
| "mentions s (JArr xs) = (\<exists>x\<in>set xs. mentions s x)"
| "mentions s (JObj kvs) = (\<exists>kv\<in>set kvs. py_in s (fst kv) \<or> mentions s (snd kv))"
| "mentions s v = False"

definition tidy_result :: "(json \<Rightarrow> string) \<Rightarrow> result \<Rightarrow> bool" where
  "tidy_result rp r =
     (single_line (message r) \<and> single_line (or_empty rp (osid r))
      \<and> single_line (or_empty rp (wfId r)))"

text \<open>The log of the three records above, and a later invocation over the same table.\<close>

definition demo_entries :: "entry list" where
  "demo_entries =
     [\<lparr>e_key = ''A'', e_status = ''SUCCESS'', e_message = ''Created'', e_osid = JStr ''1-ab'',
       e_wfId = JStr ''X1'', e_time = ''2024-05-01 10:00:00''\<rparr>,
      \<lparr>e_key = ''B'', e_status = ''DUPLICATE'', e_message = ''Duplicate wfId'', e_osid = JNull,
       e_wfId = JNull, e_time = ''2024-05-01 10:00:00''\<rparr>,
      \<lparr>e_key = ''C'', e_status = ''FAILED'',
       e_message = ''Transform error: could not convert string to float'', e_osid = JNull,
       e_wfId = JNull, e_time = ''2024-05-01 10:00:00''\<rparr>]"

definition demo_later :: env where
  "demo_later = demo_env [granted] [created] [not_found]"

definition demo_logged :: world where
  "demo_logged = demo_world\<lparr>log_file := written_log (repr demo_later) demo_entries\<rparr>"

section \<open>Properties of the upload log\<close>

subsection \<open>Splitting and stripping\<close>

lemma py_split_nonempty: "py_split sep s \<noteq> []"
  by (induction s) (auto split: list.splits)

lemma py_split_field: "sep \<notin> set a \<Longrightarrow> py_split sep (a @ sep # r) = a # py_split sep r"
  by (induction a) (auto split: list.splits)

lemma not_space_PIPE: "\<not> isspace PIPE"
  by (simp add: isspace_def PIPE_def)

lemma strip_keep:
  assumes "a \<noteq> []" "\<not> isspace (hd a)" "\<not> isspace (last a)"
  shows "strip (a @ b) = a @ rev (dropWhile isspace (rev b))"
proof -
  from assms have "dropWhile isspace (a @ b) = a @ b"
    by (cases a) auto
  moreover from assms have "dropWhile isspace (rev b @ rev a) = dropWhile isspace (rev b) @ rev a"
    by (cases a rule: rev_cases) (auto simp: dropWhile_append)
  ultimately show ?thesis by (simp add: strip_def)
qed

lemma lstrip_key: "dropWhile isspace (key @ PIPE # r) = dropWhile isspace key @ PIPE # r"
  by (induction key) (auto simp: not_space_PIPE)

lemma lstrip_idem: "dropWhile isspace (dropWhile isspace s) = dropWhile isspace s"
  by (induction s) auto

lemma strip_lstrip_key: "strip (key @ PIPE # r) = strip (dropWhile isspace key @ PIPE # r)"
  by (simp add: strip_def lstrip_key lstrip_idem)

lemma lstrip_hd: "dropWhile isspace s = [] \<or> \<not> isspace (hd (dropWhile isspace s))"
  using hd_dropWhile [of isspace s] by blast

lemma lstrip_unspaced: "key = [] \<or> \<not> isspace (hd key) \<Longrightarrow> dropWhile isspace key = key"
  by (cases key) auto

text \<open>The first two fields of a stripped line: the key without its leading white space,
  and the outcome.\<close>

lemma entry_parts:
  assumes "PIPE \<notin> set key" "PIPE \<notin> set st"
  shows "\<exists>more. py_split PIPE (strip (key @ [PIPE] @ st @ [PIPE] @ rest)) =
            dropWhile isspace key # st # more \<and> more \<noteq> []"
proof -
  let ?k = "dropWhile isspace key"
  let ?a = "?k @ [PIPE] @ st @ [PIPE]"
  have k: "PIPE \<notin> set ?k"
    using assms(1) set_dropWhileD by fastforce
  have "strip (key @ [PIPE] @ st @ [PIPE] @ rest) = strip (?a @ rest)"
    using strip_lstrip_key [of key "st @ [PIPE] @ rest"] by simp
  also have "\<dots> = ?a @ rev (dropWhile isspace (rev rest))"
    using lstrip_hd [of key] by (intro strip_keep) (auto simp: not_space_PIPE hd_append)
  finally have "py_split PIPE (strip (key @ [PIPE] @ st @ [PIPE] @ rest)) =
      ?k # st # py_split PIPE (rev (dropWhile isspace (rev rest)))"
    using k assms(2) by (simp add: py_split_field)
  then show ?thesis by (simp add: py_split_nonempty)
qed

lemma raw_parts:
  assumes "PIPE \<notin> set key" "PIPE \<notin> set st"
  shows "\<exists>more. py_split PIPE (key @ [PIPE] @ st @ [PIPE] @ rest) = key # st # more \<and> more \<noteq> []"
  using assms by (simp add: py_split_field py_split_nonempty)

subsection \<open>Lines of a file\<close>

lemma universal_newlines_Cons:
  "c \<noteq> CR \<Longrightarrow> universal_newlines (c # cs) = c # universal_newlines cs"
  by (cases cs) auto

lemma universal_newlines_line:
  "CR \<notin> set s \<Longrightarrow> universal_newlines (s @ LF # rest) = s @ LF # universal_newlines rest"
  by (induction s) (auto simp: universal_newlines_Cons LF_def CR_def)

lemma universal_newlines_append:
  "a = [] \<or> last a \<noteq> CR \<Longrightarrow>
     universal_newlines (a @ b) = universal_newlines a @ universal_newlines b"
proof (induction a rule: universal_newlines.induct)
  case 1
  then show ?case by simp
next
  case (2 c)
  then show ?case by (simp add: universal_newlines_Cons)
next
  case (3 c d cs)
  then show ?case by (auto simp: universal_newlines_Cons split: if_splits)
qed

lemma universal_newlines_last:
  "a \<noteq> [] \<Longrightarrow> last a = LF \<Longrightarrow>
     universal_newlines a \<noteq> [] \<and> last (universal_newlines a) = LF"
proof (induction a rule: universal_newlines.induct)
  case 1
  then show ?case by simp
next
  case (2 c)
  then show ?case by (simp add: LF_def CR_def)
next
  case (3 c d cs)
  then show ?case by (cases cs) (auto simp: LF_def CR_def split: if_splits)
qed

lemma split_lines_line:
  "LF \<notin> set s \<Longrightarrow> split_lines (s @ LF # rest) = (s @ [LF]) # split_lines rest"
  by (induction s) (auto split: list.splits)

lemma split_lines_append:
  "a = [] \<or> last a = LF \<Longrightarrow> split_lines (a @ b) = split_lines a @ split_lines b"
proof (induction a)
  case Nil
  then show ?case by simp
next
  case (Cons c a)
  show ?case
  proof (cases "a = []")
    case True
    with Cons.prems show ?thesis by simp
  next
    case False
    with Cons.prems have "last a = LF" by simp
    with Cons.IH have ih: "split_lines (a @ b) = split_lines a @ split_lines b" by simp
    from False have "split_lines a \<noteq> []" by (cases a) (auto split: list.splits)
    with ih show ?thesis by (auto split: list.splits)
  qed
qed

text \<open>A file that is empty or ends a line can be read in two parts.\<close>

lemma file_lines_append:
  assumes "a = [] \<or> last a = LF"
  shows "file_lines (a @ b) = file_lines a @ file_lines b"
proof (cases "a = []")
  case True
  then show ?thesis by (simp add: file_lines_def)
next
  case False
  with assms have l: "last a = LF" by simp
  then have "last a \<noteq> CR" by (simp add: LF_def CR_def)
  then have "universal_newlines (a @ b) = universal_newlines a @ universal_newlines b"
    by (simp add: universal_newlines_append)
  moreover have "last (universal_newlines a) = LF"
    using universal_newlines_last [OF False l] by simp
  ultimately show ?thesis
    by (simp add: file_lines_def split_lines_append)
qed

lemma file_lines_single:
  assumes "single_line s"
  shows "file_lines (s @ [LF]) = [s @ [LF]]"
  using assms universal_newlines_line [of s "[]"] split_lines_line [of s "[]"]
  by (simp add: file_lines_def single_line_def)

subsection \<open>One entry, written and read back\<close>

lemma single_line_append [simp]: "single_line (a @ b) = (single_line a \<and> single_line b)"
  by (auto simp: single_line_def)

lemma single_line_Cons_PIPE [simp]: "single_line (PIPE # s) = single_line s"
  by (simp add: single_line_def PIPE_def LF_def CR_def)

lemma outcome_no_PIPE: "st \<in> outcomes \<Longrightarrow> PIPE \<notin> set st"
  by (auto simp: outcomes_def PIPE_def)

lemma outcome_single_line: "st \<in> outcomes \<Longrightarrow> single_line st"
  by (auto simp: outcomes_def single_line_def LF_def CR_def)

lemma log_entry_body:
  "log_entry rp key st msg oid wid ts =
     (key @ [PIPE] @ st @ [PIPE] @ msg @ [PIPE] @ or_empty rp oid @ [PIPE] @ or_empty rp wid
        @ [PIPE] @ ts) @ [LF]"
  by (simp add: log_entry_def)

lemma file_lines_log_result:
  assumes "content = [] \<or> last content = LF"
    and "single_line key" "single_line st" "single_line msg"
    and "single_line (or_empty rp oid)" "single_line (or_empty rp wid)" "single_line ts"
  shows "file_lines (log_result rp key st msg oid wid ts content) =
           file_lines content @ [log_entry rp key st msg oid wid ts]"
proof -
  have "file_lines (log_entry rp key st msg oid wid ts) = [log_entry rp key st msg oid wid ts]"
    unfolding log_entry_body using assms(2-) by (intro file_lines_single) simp
  with assms(1) show ?thesis
    by (simp add: log_result_def file_lines_append)
qed

lemma entry_fields:
  assumes "PIPE \<notin> set key" "PIPE \<notin> set st"
  shows "\<exists>more. py_split PIPE (strip (log_entry rp key st msg oid wid ts)) =
           dropWhile isspace key # st # more \<and> more \<noteq> []"
  using entry_parts [OF assms] by (simp add: log_entry_def)

lemma uploaded_step_entry:
  assumes "PIPE \<notin> set key" "PIPE \<notin> set st"
  shows "uploaded_step (log_entry rp key st msg oid wid ts) U =
           (if st = ''SUCCESS'' then insert (dropWhile isspace key) U else U)"
proof -
  from entry_fields [OF assms] obtain more where
    "py_split PIPE (strip (log_entry rp key st msg oid wid ts)) = dropWhile isspace key # st # more"
    "more \<noteq> []"
    by blast
  then show ?thesis
    by (cases more) (simp_all add: uploaded_step_def)
qed

lemma stats_step_entry:
  assumes "PIPE \<notin> set key" "PIPE \<notin> set st"
  shows "stats_step (log_entry rp key st msg oid wid ts) s = count_outcome st s"
proof -
  from entry_fields [OF assms] obtain more where
    "py_split PIPE (strip (log_entry rp key st msg oid wid ts)) = dropWhile isspace key # st # more"
    by blast
  then show ?thesis
    by (simp add: stats_step_def count_outcome_def)
qed

lemma fold_snoc: "fold f (xs @ [x]) a = f x (fold f xs a)"
  by simp

text \<open>After one more entry the set of uploaded keys has grown by the key of the entry,
  without its leading white space, when the outcome is SUCCESS.\<close>

lemma load_uploaded_records_log_result:
  assumes "PIPE \<notin> set key" "single_line key" "st \<in> outcomes" "single_line msg"
    and "single_line (or_empty rp oid)" "single_line (or_empty rp wid)" "single_line ts"
    and "content = [] \<or> last content = LF"
  shows "load_uploaded_records (log_result rp key st msg oid wid ts content) =
          (if st = ''SUCCESS'' then insert (dropWhile isspace key) (load_uploaded_records content)
           else load_uploaded_records content)"
proof -
  have "file_lines (log_result rp key st msg oid wid ts content) =
      file_lines content @ [log_entry rp key st msg oid wid ts]"
    using assms(8,2) outcome_single_line [OF assms(3)] assms(4-7) by (rule file_lines_log_result)
  then show ?thesis
    unfolding load_uploaded_records_def fold_snoc
    by (simp add: uploaded_step_entry [OF assms(1) outcome_no_PIPE [OF assms(3)]])
qed

lemma get_upload_stats_log_result:
  assumes "PIPE \<notin> set key" "single_line key" "st \<in> outcomes" "single_line msg"
    and "single_line (or_empty rp oid)" "single_line (or_empty rp wid)" "single_line ts"
    and "content = [] \<or> last content = LF"
  shows "get_upload_stats (log_result rp key st msg oid wid ts content) =
          count_outcome st (get_upload_stats content)"
proof -
  have "file_lines (log_result rp key st msg oid wid ts content) =
      file_lines content @ [log_entry rp key st msg oid wid ts]"
    using assms(8,2) outcome_single_line [OF assms(3)] assms(4-7) by (rule file_lines_log_result)
  then show ?thesis
    unfolding get_upload_stats_def fold_snoc
    by (simp add: stats_step_entry [OF assms(1) outcome_no_PIPE [OF assms(3)]])
qed

text \<open>
  What holds of one entry. Take an entry whose key contains no \<^verbatim>\<open>|\<close> and no line
  break, whose outcome is SUCCESS, DUPLICATE or FAILED, and whose message, identifiers
  and time stamp are free of line breaks; let it be appended to a log that is empty or
  ends a line. Then the written line, split on \<^verbatim>\<open>|\<close>, has the key as field 0 and the
  outcome as field 1; \<^verbatim>\<open>get_upload_stats\<close> of the new log is that of the old log with
  the counter of the outcome raised by one; absent identifiers are written as the empty
  string; and \<^verbatim>\<open>load_uploaded_records\<close> of the new log is that of the old log with,
  when the outcome is SUCCESS, the key \<^emph>\<open>without its leading white space\<close> added.
\<close>

lemma log_line_read_back:
  assumes "PIPE \<notin> set key" "single_line key"
    and "st \<in> outcomes"
    and "single_line msg" "single_line (or_empty rp oid)" "single_line (or_empty rp wid)"
      "single_line ts"
    and "content = [] \<or> last content = LF"
  shows "(\<exists>more. py_split PIPE (log_entry rp key st msg oid wid ts) = key # st # more \<and> more \<noteq> [])
    \<and> load_uploaded_records (log_result rp key st msg oid wid ts content) =
          (if st = ''SUCCESS'' then insert (dropWhile isspace key) (load_uploaded_records content)
           else load_uploaded_records content)
    \<and> get_upload_stats (log_result rp key st msg oid wid ts content) =
          count_outcome st (get_upload_stats content)
    \<and> log_entry rp key st msg JNull JNull ts =
          key @ [PIPE] @ st @ [PIPE] @ msg @ [PIPE] @ [PIPE] @ [PIPE] @ ts @ [LF]"
proof -
  have "\<exists>more. py_split PIPE (log_entry rp key st msg oid wid ts) = key # st # more \<and> more \<noteq> []"
    using raw_parts [OF assms(1) outcome_no_PIPE [OF assms(3)]] by (simp add: log_entry_def)
  moreover have "load_uploaded_records (log_result rp key st msg oid wid ts content) =
      (if st = ''SUCCESS'' then insert (dropWhile isspace key) (load_uploaded_records content)
       else load_uploaded_records content)"
    by (rule load_uploaded_records_log_result [OF assms])
  moreover have "get_upload_stats (log_result rp key st msg oid wid ts content) =
      count_outcome st (get_upload_stats content)"
    by (rule get_upload_stats_log_result [OF assms])
  moreover have "log_entry rp key st msg JNull JNull ts =
      key @ [PIPE] @ st @ [PIPE] @ msg @ [PIPE] @ [PIPE] @ [PIPE] @ ts @ [LF]"
    by (simp add: log_entry_def or_empty_def)
  ultimately show ?thesis by blast
qed

text \<open>
  Claim C10. The claim is that an entry whose key contains neither \<^verbatim>\<open>|\<close> nor a line
  break is classified by its written key: \<^verbatim>\<open>load_uploaded_records\<close> is to return the
  key that \<^verbatim>\<open>log_result\<close> wrote. The code misses that for a key that begins with
  white space. The key \<^verbatim>\<open> A1\<close> has no \<^verbatim>\<open>|\<close> and no line break; its line, split on
  \<^verbatim>\<open>|\<close>, has the key with its blank as field 0 and SUCCESS as field 1, and
  \<^verbatim>\<open>get_upload_stats\<close> counts the entry; but \<^verbatim>\<open>load_uploaded_records\<close>, which
  strips the whole line to remove the line break, returns \<^verbatim>\<open>A1\<close>: the written key
  is not in the set it returns.
\<close>

theorem log_line_key_stripped:
  "PIPE \<notin> set '' A1'' \<and> single_line '' A1'' \<and> single_line ''Created''
   \<and> take 2 (py_split PIPE
        (log_entry (\<lambda>v. []) '' A1'' ''SUCCESS'' ''Created'' (JStr ''1-ab'') JNull
           ''2024-05-01 10:00:00'')) = ['' A1'', ''SUCCESS'']
   \<and> get_upload_stats
       (log_result (\<lambda>v. []) '' A1'' ''SUCCESS'' ''Created'' (JStr ''1-ab'') JNull
          ''2024-05-01 10:00:00'' []) = \<lparr>success = 1, failed = 0, duplicate = 0\<rparr>
   \<and> load_uploaded_records
       (log_result (\<lambda>v. []) '' A1'' ''SUCCESS'' ''Created'' (JStr ''1-ab'') JNull
          ''2024-05-01 10:00:00'' []) = {''A1''}
   \<and> '' A1'' \<notin> load_uploaded_records
       (log_result (\<lambda>v. []) '' A1'' ''SUCCESS'' ''Created'' (JStr ''1-ab'') JNull
          ''2024-05-01 10:00:00'' [])"
  by (simp add: load_uploaded_records_def get_upload_stats_def stats_step_def
      log_result_def log_entry_def file_lines_def
      uploaded_step_def strip_def PIPE_def LF_def CR_def isspace_def or_empty_def single_line_def)

section \<open>Properties of the submission of one record\<close>

subsection \<open>Retries happen only below the bound\<close>

lemma attempt_Retry:
  "attempt e facility retry_count w = (Inr Retry, w') \<Longrightarrow> retry_count < max_retries"
  by (auto simp: attempt_def Let_def split: prod.splits sum.splits net_result.splits if_splits)

subsection \<open>Outcome of every submission\<close>

lemma failed_result_status [simp]: "status (failed_result m) = ''FAILED''"
  and failed_result_message [simp]: "message (failed_result m) = m"
  by (simp_all add: failed_result_def)

lemma on_created_status:
  "on_created e h r w = (Inr res, w') \<Longrightarrow> status res = ''SUCCESS'' \<and> message res = ''Created''"
  by (auto simp: on_created_def Let_def split: sum.splits net_result.splits if_splits)

lemma on_server_error_status: "status (on_server_error e r) \<in> outcomes"
  by (auto simp: on_server_error_def Let_def outcomes_def split: sum.splits)

lemma attempt_status:
  "attempt e f rc w = (Inr (Return res), w') \<Longrightarrow> status res \<in> outcomes"
  using on_server_error_status
  by (auto simp: attempt_def Let_def outcomes_def dest!: on_created_status
      split: prod.splits sum.splits net_result.splits if_splits)

lemma upload_facility_status: "status (fst (upload_facility e f rc w)) \<in> outcomes"
proof (induction e f rc w rule: upload_facility.induct)
  case (1 e facility retry_count w)
  show ?case
  proof (cases "attempt e facility retry_count w")
    case (Pair a w1)
    show ?thesis
    proof (cases a)
      case (Inl x)
      with Pair 1 show ?thesis
        by (cases x) (auto simp: upload_facility.simps [of e facility retry_count w] outcomes_def)
    next
      case (Inr s)
      with Pair 1 attempt_status show ?thesis
        by (cases s) (auto simp: upload_facility.simps [of e facility retry_count w])
    qed
  qed
qed

lemma upload_facility_fault:
  "attempt e f rc w = (Inl (Fault m), w1) \<Longrightarrow>
     upload_facility e f rc w = (failed_result (take 200 m), w1)"
  by (simp add: upload_facility.simps [of e f rc w])

subsection \<open>Token requests and single attempts\<close>












lemma upload_return:
  "attempt e f rc w = (Inr (Return r), w') \<Longrightarrow> upload_facility e f rc w = (r, w')"
  by (simp add: upload_facility.simps [of e f rc w])



subsection \<open>Instances of the concrete environment\<close>


lemma demo_env_simps [simp]:
  "token_ep (demo_env ts cs fs) = script ts"
  "create_ep (demo_env ts cs fs) = script cs"
  "fetch_ep (demo_env ts cs fs) = script fs"
  "clock (demo_env ts cs fs) n = 1000"
  by (simp_all add: demo_env_def)

lemma demo_world_simps [simp]:
  "access_token demo_world = JStr ''t0''" "expires_at demo_world = 2000"
  "n_token demo_world = 0" "n_create demo_world = 0" "n_fetch demo_world = 0"
  "n_clock demo_world = 0"
  by (simp_all add: demo_world_def)

lemma float_limit_300: "\<not> float_limit \<le> 300"
  by (simp add: float_limit_def)

lemma demo_answers [simp]:
  "grant (granted_as tk 300) = Some (JStr tk, 300)"
  "status_of refused = Some 401" "fetch_answers not_found"
  by (simp_all add: granted_as_def refused_def created_def not_found_def reply_def grant_def
      status_of_def fetch_answers_def float_limit_300)

subsection \<open>The bound on retries after 401\<close>




subsection \<open>The last attempt decides\<close>

lemma creations_append [simp]: "creations (a @ b) = creations a @ creations b"
  by (induction a rule: creations.induct) simp_all

lemma upload_facility_final:
  "\<exists>rc' w0 a w1. attempt e f rc' w0 = (a, w1) \<and> snd (upload_facility e f rc w) = w1 \<and>
     (case a of
        Inr (Return r) \<Rightarrow> fst (upload_facility e f rc w) = r
      | Inr Retry \<Rightarrow> False
      | Inl (Timeout m) \<Rightarrow> fst (upload_facility e f rc w) = failed_result ''Timeout after retries''
      | Inl (Fault m) \<Rightarrow> fst (upload_facility e f rc w) = failed_result (take 200 m))"
proof (induction e f rc w rule: upload_facility.induct)
  case (1 e facility retry_count w)
  show ?case
  proof (cases "attempt e facility retry_count w")
    case (Pair a w1)
    show ?thesis
    proof (cases a)
      case (Inl x)
      show ?thesis
      proof (cases x)
        case (Timeout m)
        show ?thesis
        proof (cases "retry_count < max_retries")
          case True
          have eq: "upload_facility e facility retry_count w =
              upload_facility e facility (retry_count + 1) (w1\<lparr>sleeps := sleeps w1 + 1\<rparr>)"
            using Pair Inl Timeout True
            by (simp add: upload_facility.simps [of e facility retry_count w])
          show ?thesis
            unfolding eq by (rule 1(1) [OF Pair [symmetric] Inl Timeout True])
        next
          case False
          have "upload_facility e facility retry_count w = (failed_result ''Timeout after retries'', w1)"
            using Pair Inl Timeout False by (simp add: upload_facility.simps [of e facility retry_count w])
          with Pair Inl Timeout show ?thesis
            by (intro exI [of _ retry_count] exI [of _ w] exI [of _ a] exI [of _ w1]) simp
        qed
      next
        case (Fault m)
        have "upload_facility e facility retry_count w = (failed_result (take 200 m), w1)"
          using Pair Inl Fault by (simp add: upload_facility.simps [of e facility retry_count w])
        with Pair Inl Fault show ?thesis
          by (intro exI [of _ retry_count] exI [of _ w] exI [of _ a] exI [of _ w1]) simp
      qed
    next
      case (Inr s)
      show ?thesis
      proof (cases s)
        case (Return r)
        have "upload_facility e facility retry_count w = (r, w1)"
          using Pair Inr Return by (simp add: upload_facility.simps [of e facility retry_count w])
        with Pair Inr Return show ?thesis
          by (intro exI [of _ retry_count] exI [of _ w] exI [of _ a] exI [of _ w1]) simp
      next
        case Retry
        have eq: "upload_facility e facility retry_count w =
            upload_facility e facility (retry_count + 1) w1"
          using Pair Inr Retry by (simp add: upload_facility.simps [of e facility retry_count w])
        show ?thesis
          unfolding eq by (rule 1(2) [OF Pair [symmetric] Inr Retry])
      qed
    qed
  qed
qed

lemma get_token_quiet: "get_token e w = (a, w') \<Longrightarrow> quiet w w'"
  by (auto simp: get_token_def Let_def quiet_def split: net_result.splits sum.splits if_splits)

lemma refresh_quiet: "refresh e w = (a, w') \<Longrightarrow> quiet w w'"
  by (auto simp: refresh_def split: prod.splits sum.splits if_splits dest: get_token_quiet)

lemma get_auth_headers_quiet: "get_auth_headers e w = (a, w') \<Longrightarrow> quiet w w'"
proof (cases "access_token w = JNull")
  case True
  assume "get_auth_headers e w = (a, w')"
  with True show ?thesis by (simp add: get_auth_headers_def refresh_quiet)
next
  case False
  assume g: "get_auth_headers e w = (a, w')"
  show ?thesis
  proof (cases "expires_at w \<le> clock e (n_clock w)")
    case True
    with False g have "refresh e (w\<lparr>n_clock := n_clock w + 1\<rparr>) = (a, w')"
      by (simp add: get_auth_headers_def Let_def)
    from refresh_quiet [OF this] show ?thesis by (simp add: quiet_def)
  next
    case no: False
    with False g show ?thesis by (auto simp: get_auth_headers_def Let_def quiet_def)
  qed
qed

lemma on_created_quiet: "on_created e h r w = (a, w') \<Longrightarrow> quiet w w' \<and> n_token w' = n_token w"
  by (auto simp: on_created_def Let_def quiet_def split: net_result.splits sum.splits if_splits)

lemma attempt_frame:
  assumes "attempt e f rc w = (a, w')"
  shows "frame f w w'"
proof (cases "get_auth_headers e w")
  case (Pair g w1)
  note q = get_auth_headers_quiet [OF Pair]
  show ?thesis
  proof (cases g)
    case (Inl x)
    with assms Pair have "w' = w1" by (simp add: attempt_def)
    with q show ?thesis by (auto simp: frame_def quiet_def)
  next
    case (Inr h)
    let ?w2 = "w1\<lparr>n_create := n_create w1 + 1, trace := trace w1 @ [CreatePost h f]\<rparr>"
    have f2: "frame f w ?w2" using q by (auto simp: frame_def quiet_def)
    show ?thesis
    proof (cases "create_ep e (n_create w1)")
      case (Raises x)
      with assms Pair Inr have "w' = ?w2" by (simp add: attempt_def Let_def)
      with f2 show ?thesis by simp
    next
      case (Resp r)
      show ?thesis
      proof (cases "status_code r = 200")
        case True
        obtain b w3 where oc: "on_created e h r ?w2 = (b, w3)" by (cases "on_created e h r ?w2")
        with assms Pair Inr Resp True have "w' = w3"
          by (cases b) (simp_all add: attempt_def Let_def)
        with on_created_quiet [OF oc] f2 show ?thesis
          by (auto simp: frame_def quiet_def)
      next
        case False
        with assms Pair Inr Resp have "w' = ?w2 \<or> w' = ?w2\<lparr>expires_at := 0\<rparr>"
          by (auto simp: attempt_def Let_def split: if_splits)
        with f2 show ?thesis by (auto simp: frame_def)
      qed
    qed
  qed
qed

text \<open>All retries of a submission draw on one counter.\<close>

lemma upload_facility_counts:
  "n_create (snd (upload_facility e f rc w)) \<le> n_create w + 1 + (max_retries - rc)
   \<and> n_token (snd (upload_facility e f rc w)) \<le> n_token w + 1 + (max_retries - rc)
   \<and> sleeps (snd (upload_facility e f rc w)) \<le> sleeps w + (max_retries - rc)
   \<and> log_file (snd (upload_facility e f rc w)) = log_file w
   \<and> n_now (snd (upload_facility e f rc w)) = n_now w
   \<and> set (creations (trace (snd (upload_facility e f rc w)))) \<subseteq> set (creations (trace w)) \<union> {f}"
proof (induction e f rc w rule: upload_facility.induct)
  case (1 e facility retry_count w)
  show ?case
  proof (cases "attempt e facility retry_count w")
    case (Pair a w1)
    note fr = attempt_frame [OF Pair]
    show ?thesis
    proof (cases a)
      case (Inl x)
      show ?thesis
      proof (cases x)
        case (Timeout m)
        show ?thesis
        proof (cases "retry_count < max_retries")
          case True
          have eq: "upload_facility e facility retry_count w =
              upload_facility e facility (retry_count + 1) (w1\<lparr>sleeps := sleeps w1 + 1\<rparr>)"
            using Pair Inl Timeout True
            by (simp add: upload_facility.simps [of e facility retry_count w])
          from 1(1) [OF Pair [symmetric] Inl Timeout True] fr True show ?thesis
            unfolding eq by (auto simp: frame_def)
        next
          case False
          have "upload_facility e facility retry_count w = (failed_result ''Timeout after retries'', w1)"
            using Pair Inl Timeout False by (simp add: upload_facility.simps [of e facility retry_count w])
          with fr show ?thesis by (auto simp: frame_def)
        qed
      next
        case (Fault m)
        have "upload_facility e facility retry_count w = (failed_result (take 200 m), w1)"
          using Pair Inl Fault by (simp add: upload_facility.simps [of e facility retry_count w])
        with fr show ?thesis by (auto simp: frame_def)
      qed
    next
      case (Inr s)
      show ?thesis
      proof (cases s)
        case (Return r)
        have "upload_facility e facility retry_count w = (r, w1)"
          using Pair Inr Return by (simp add: upload_facility.simps [of e facility retry_count w])
        with fr show ?thesis by (auto simp: frame_def)
      next
        case Retry
        have lt: "retry_count < max_retries"
          using Pair Inr Retry attempt_Retry by blast
        have eq: "upload_facility e facility retry_count w =
            upload_facility e facility (retry_count + 1) w1"
          using Pair Inr Retry by (simp add: upload_facility.simps [of e facility retry_count w])
        from 1(2) [OF Pair [symmetric] Inr Retry] fr lt show ?thesis
          unfolding eq by (auto simp: frame_def)
      qed
    qed
  qed
qed

lemmas run_defs = upload_facility.simps attempt_def get_auth_headers_def refresh_def get_token_def
  on_created_def on_server_error_def osid_of_def demo_env_def demo_world_def script_def reply_def
  max_retries_def granted_def created_def refused_def not_found_def failed_result_def
  str_int_def key_error_def quoted_def float_limit_300

text \<open>
  Claim C9. For every payload, every retry count, every state and every behaviour of the
  three endpoints, \<^verbatim>\<open>upload_facility\<close> returns a dictionary (the function is total and
  its value is not an exception) whose status is SUCCESS, DUPLICATE or FAILED. The result
  is that of its last attempt: what the attempt returned, or FAILED for a timeout when the
  retries are used up, or FAILED with the first 200 characters of the text of any other
  exception the attempt raised.
\<close>

theorem upload_facility_total:
  "status (fst (upload_facility e facility retry_count w)) \<in> outcomes
   \<and> (\<exists>rc' w0 a w1. attempt e facility rc' w0 = (a, w1)
        \<and> snd (upload_facility e facility retry_count w) = w1
        \<and> (case a of
              Inr (Return r) \<Rightarrow> fst (upload_facility e facility retry_count w) = r
            | Inr Retry \<Rightarrow> False
            | Inl (Timeout m) \<Rightarrow>
                fst (upload_facility e facility retry_count w) =
                  failed_result ''Timeout after retries''
            | Inl (Fault m) \<Rightarrow>
                fst (upload_facility e facility retry_count w) = failed_result (take 200 m)
                \<and> length (message (fst (upload_facility e facility retry_count w))) \<le> 200))"
proof -
  from upload_facility_final [of e facility retry_count w] obtain rc' w0 a w1 where
    a: "attempt e facility rc' w0 = (a, w1)" "snd (upload_facility e facility retry_count w) = w1"
      "(case a of
          Inr (Return r) \<Rightarrow> fst (upload_facility e facility retry_count w) = r
        | Inr Retry \<Rightarrow> False
        | Inl (Timeout m) \<Rightarrow>
            fst (upload_facility e facility retry_count w) = failed_result ''Timeout after retries''
        | Inl (Fault m) \<Rightarrow>
            fst (upload_facility e facility retry_count w) = failed_result (take 200 m))"
    by blast
  from a(3) have "(case a of
          Inr (Return r) \<Rightarrow> fst (upload_facility e facility retry_count w) = r
        | Inr Retry \<Rightarrow> False
        | Inl (Timeout m) \<Rightarrow>
            fst (upload_facility e facility retry_count w) = failed_result ''Timeout after retries''
        | Inl (Fault m) \<Rightarrow>
            fst (upload_facility e facility retry_count w) = failed_result (take 200 m)
            \<and> length (message (fst (upload_facility e facility retry_count w))) \<le> 200)"
    by (auto split: sum.splits exc.splits step.splits)
  with a(1,2) upload_facility_status [of e facility retry_count w] show ?thesis by blast
qed

text \<open>Instances: a 200 response whose body lacks the created identifier, an error body
  that is not JSON, and a token exchange that is refused after a 401.\<close>

theorem upload_facility_total_witness:
  "fst (upload_facility (demo_env [] [reply 200 ''{}'' (Inr (JObj []))] [])
          demo_facility 0 demo_world) = failed_result (quoted ''result'')
   \<and> fst (upload_facility
          (demo_env [] [reply 500 ''<html>Internal Server Error</html>''
                          (Inl ''Expecting value: line 1 column 1 (char 0)'')] [])
          demo_facility 0 demo_world)
       = failed_result ''Server error: <html>Internal Server Error</html>''
   \<and> fst (upload_facility (demo_env [reply 503 ''Service Unavailable'' (Inl ''Expecting value'')]
                             [refused] [])
          demo_facility 0 demo_world) = failed_result ''Failed to obtain access token''"
  using upload_facility_total [of "demo_env [] [reply 200 ''{}'' (Inr (JObj []))] []"
      demo_facility 0 demo_world]
  by (simp add: run_defs)

subsection \<open>Texts that contain a text\<close>

lemma startswith_iff: "startswith t s \<longleftrightarrow> (\<exists>b. t = s @ b)"
  by (induction t s rule: startswith.induct) auto

lemma py_in_iff: "py_in s t \<longleftrightarrow> (\<exists>a b. t = a @ s @ b)"
proof (induction t)
  case Nil
  then show ?case by auto
next
  case (Cons c cs)
  show ?case
  proof
    assume "py_in s (c # cs)"
    then consider "startswith (c # cs) s" | "py_in s cs" by auto
    then show "\<exists>a b. c # cs = a @ s @ b"
    proof cases
      case 1
      then obtain b where "c # cs = s @ b" by (auto simp: startswith_iff)
      then have "c # cs = [] @ s @ b" by simp
      then show ?thesis by blast
    next
      case 2
      with Cons obtain a b where "cs = a @ s @ b" by blast
      then have "c # cs = (c # a) @ s @ b" by simp
      then show ?thesis by blast
    qed
  next
    assume "\<exists>a b. c # cs = a @ s @ b"
    then obtain a b where ab: "c # cs = a @ s @ b" by blast
    show "py_in s (c # cs)"
    proof (cases a)
      case Nil
      with ab have "startswith (c # cs) s" by (auto simp: startswith_iff)
      then show ?thesis by simp
    next
      case (Cons d ds)
      with ab have "cs = ds @ s @ b" by simp
      with Cons.IH show ?thesis by auto
    qed
  qed
qed

lemma py_in_append: "py_in s t \<Longrightarrow> py_in s (x @ t @ y)"
  unfolding py_in_iff
proof -
  assume "\<exists>a b. t = a @ s @ b"
  then obtain a b where "t = a @ s @ b" by blast
  then have "x @ t @ y = (x @ a) @ s @ (b @ y)" by simp
  then show "\<exists>a b. x @ t @ y = a @ s @ b" by blast
qed

lemma py_in_trans: "py_in u s \<Longrightarrow> py_in s t \<Longrightarrow> py_in u t"
  unfolding py_in_iff
proof -
  assume "\<exists>a b. s = a @ u @ b" "\<exists>a b. t = a @ s @ b"
  then obtain a b c d where "s = a @ u @ b" "t = c @ s @ d" by blast
  then have "t = (c @ a) @ u @ (b @ d)" by simp
  then show "\<exists>a b. t = a @ u @ b" by blast
qed

lemma py_in_lower: "py_in s t \<Longrightarrow> py_in (lower s) (lower t)"
  unfolding py_in_iff
proof -
  assume "\<exists>a b. t = a @ s @ b"
  then obtain a b where "t = a @ s @ b" by blast
  then have "lower t = lower a @ lower s @ lower b" by (simp add: lower_def)
  then show "\<exists>a b. lower t = a @ lower s @ b" by blast
qed

lemma py_in_join: "x \<in> set xs \<Longrightarrow> py_in s x \<Longrightarrow> py_in s (join sep xs)"
proof (induction sep xs rule: join.induct)
  case (1 sep)
  then show ?case by simp
next
  case (2 sep x')
  then show ?case by simp
next
  case (3 sep x' y ys)
  show ?case
  proof (cases "x = x'")
    case True
    with 3(3) py_in_append [of s x "[]" "sep @ join sep (y # ys)"] show ?thesis by simp
  next
    case False
    with 3 have "py_in s (join sep (y # ys))" by simp
    from py_in_append [OF this, of "x' @ sep" "[]"] show ?thesis by simp
  qed
qed

text \<open>\<^verbatim>\<open>repr\<close> keeps a plain text that a string contains.\<close>

lemma printable_control:
  "\<not> printable (CHR 0x09)" "\<not> printable LF" "\<not> printable CR"
  by (simp_all add: printable_def LF_def CR_def)

lemma repr_char_plain:
  assumes "printable c" "c \<noteq> CHR 0x27" "c \<noteq> CHR 0x22" "c \<noteq> CHR 0x5C"
    and "q = CHR 0x27 \<or> q = CHR 0x22"
  shows "repr_char q c = [c]"
proof -
  from assms(1) printable_control have "c \<noteq> CHR 0x09" "c \<noteq> LF" "c \<noteq> CR" by blast+
  moreover from assms(2,3,5) have "c \<noteq> q" by blast
  ultimately show ?thesis using assms(1,4) by (simp add: repr_char_def)
qed

lemma repr_chars_plain:
  "plain s \<Longrightarrow> q = CHR 0x27 \<or> q = CHR 0x22 \<Longrightarrow> concat (map (repr_char q) s) = s"
  by (induction s) (simp_all add: plain_def repr_char_plain)

lemma py_in_repr_str:
  assumes "plain s" "py_in s t"
  shows "py_in s (repr_str t)"
proof -
  from assms(2) obtain a b where t: "t = a @ s @ b" by (auto simp: py_in_iff)
  have q: "quote_of t = CHR 0x27 \<or> quote_of t = CHR 0x22" by (simp add: quote_of_def)
  have "concat (map (repr_char (quote_of t)) t) =
      concat (map (repr_char (quote_of t)) a) @ s @ concat (map (repr_char (quote_of t)) b)"
    using repr_chars_plain [OF assms(1) q] unfolding t by simp
  then have "repr_str t =
      (quote_of t # concat (map (repr_char (quote_of t)) a)) @ s
        @ (concat (map (repr_char (quote_of t)) b) @ [quote_of t])"
    by (simp add: repr_str_def)
  then show ?thesis unfolding py_in_iff by blast
qed

text \<open>The text of a decoded value contains every plain text that the value mentions.\<close>

lemma mentions_py_repr:
  "plain s \<Longrightarrow> mentions s j \<Longrightarrow> py_in s (py_repr fr j)"
proof (induction fr j rule: py_repr.induct)
  case (5 fr t)
  then show ?case by (simp add: py_in_repr_str)
next
  case (6 fr xs)
  from 6(3) obtain x where x: "x \<in> set xs" "mentions s x" by auto
  with 6(1) [OF x(1) 6(2)] have "py_in s (py_repr fr x)" by simp
  with x(1) have "py_in s (join '', '' (map (py_repr fr) xs))"
    by (intro py_in_join [of "py_repr fr x"]) simp_all
  from py_in_append [OF this, of "''[''" "'']''"] show ?case by simp
next
  case (7 fr kvs)
  from 7(3) obtain kv where kv: "kv \<in> set kvs" "py_in s (fst kv) \<or> mentions s (snd kv)" by auto
  have "py_in s (repr_str (fst kv) @ '': '' @ py_repr fr (snd kv))"
  proof (cases "py_in s (fst kv)")
    case True
    from py_in_append [OF py_in_repr_str [OF 7(2) True], of "[]" "'': '' @ py_repr fr (snd kv)"]
    show ?thesis by simp
  next
    case False
    with kv(2) 7(1) [OF kv(1) 7(2)] have "py_in s (py_repr fr (snd kv))" by simp
    from py_in_append [OF this, of "repr_str (fst kv) @ '': ''" "[]"] show ?thesis by simp
  qed
  with kv(1) have "py_in s (join '', '' (map (\<lambda>kv. repr_str (fst kv) @ '': '' @ py_repr fr (snd kv)) kvs))"
    by (intro py_in_join [of "repr_str (fst kv) @ '': '' @ py_repr fr (snd kv)"]) auto
  from py_in_append [OF this, of "''{''" "''}''"] show ?case by simp
qed simp_all

lemma mentions_py_str:
  assumes "plain s" "mentions s j"
  shows "py_in s (py_str (repr e) j)"
proof (cases j)
  case (JStr t)
  with assms(2) show ?thesis by simp
next
  case (JArr xs)
  with mentions_py_repr [OF assms, of "float_repr e"] show ?thesis by (simp add: repr_def)
next
  case (JObj kvs)
  with mentions_py_repr [OF assms, of "float_repr e"] show ?thesis by (simp add: repr_def)
qed (use assms(2) in simp_all)

subsection \<open>Classification of a server error\<close>

text \<open>
  Claim C3, as amended. When the creation request is answered with status 500: if the
  body decodes as JSON and the text of the decoded value, in lower case, contains
  \<^verbatim>\<open>duplicate\<close> or \<^verbatim>\<open>unique\<close>, the result is DUPLICATE with the message
  \<^verbatim>\<open>Duplicate wfId\<close>; if it decodes and contains neither, or does not decode, the
  result is FAILED with \<^verbatim>\<open>Server error:\<close> and the first 200 characters of the body.
  The first case covers every decoded value that mentions, in a string or in the key of a
  dictionary at any depth, a plain text whose lower case contains \<^verbatim>\<open>duplicate\<close> or
  \<^verbatim>\<open>unique\<close>, such as \<^verbatim>\<open>unique constraint\<close>. When the status is another 5xx code,
  from 501 to 599, the body is not inspected: the result is FAILED with \<^verbatim>\<open>HTTP\<close>, the
  code and the first 200 characters of the body.
\<close>

theorem server_error_classification:
  assumes "get_auth_headers e w = (Inr h, w1)" "create_ep e (n_create w1) = Resp r"
  shows "(status_code r = 500 \<longrightarrow>
            (\<forall>error_data. json_body r = Inr error_data \<and>
               (py_in ''duplicate'' (lower (py_str (repr e) error_data))
                \<or> py_in ''unique'' (lower (py_str (repr e) error_data))) \<longrightarrow>
               fst (upload_facility e f rc w) = duplicate_result)
          \<and> (\<forall>error_data. json_body r = Inr error_data \<and>
               \<not> py_in ''duplicate'' (lower (py_str (repr e) error_data))
               \<and> \<not> py_in ''unique'' (lower (py_str (repr e) error_data)) \<longrightarrow>
               fst (upload_facility e f rc w) =
                 failed_result (''Server error: '' @ take 200 (body_text r)))
          \<and> (\<forall>m. json_body r = Inl m \<longrightarrow>
               fst (upload_facility e f rc w) =
                 failed_result (''Server error: '' @ take 200 (body_text r)))
          \<and> (\<forall>error_data s. json_body r = Inr error_data \<and> mentions s error_data \<and> plain s
               \<and> (py_in ''duplicate'' (lower s) \<or> py_in ''unique'' (lower s)) \<longrightarrow>
               fst (upload_facility e f rc w) = duplicate_result))
       \<and> (500 < status_code r \<and> status_code r \<le> 599 \<longrightarrow>
            fst (upload_facility e f rc w) =
              failed_result (''HTTP '' @ str_int (status_code r) @ '': ''
                               @ take 200 (body_text r)))"
proof -
  let ?w2 = "w1\<lparr>n_create := n_create w1 + 1, trace := trace w1 @ [CreatePost h f]\<rparr>"
  have inspected: "fst (upload_facility e f rc w) = on_server_error e r"
    if "status_code r = 500"
  proof -
    have "attempt e f rc w = (Inr (Return (on_server_error e r)), ?w2)"
      using assms that by (simp add: attempt_def Let_def)
    from upload_return [OF this] show ?thesis by simp
  qed
  have mentioned: "py_in ''duplicate'' (lower (py_str (repr e) error_data))
      \<or> py_in ''unique'' (lower (py_str (repr e) error_data))"
    if m: "mentions s error_data" "plain s"
      "py_in ''duplicate'' (lower s) \<or> py_in ''unique'' (lower s)"
    for error_data s
  proof -
    from mentions_py_str [OF m(2,1)] have "py_in (lower s) (lower (py_str (repr e) error_data))"
      by (rule py_in_lower)
    with m(3) py_in_trans show ?thesis by blast
  qed
  have first: "status_code r = 500 \<longrightarrow>
            (\<forall>error_data. json_body r = Inr error_data \<and>
               (py_in ''duplicate'' (lower (py_str (repr e) error_data))
                \<or> py_in ''unique'' (lower (py_str (repr e) error_data))) \<longrightarrow>
               fst (upload_facility e f rc w) = duplicate_result)
          \<and> (\<forall>error_data. json_body r = Inr error_data \<and>
               \<not> py_in ''duplicate'' (lower (py_str (repr e) error_data))
               \<and> \<not> py_in ''unique'' (lower (py_str (repr e) error_data)) \<longrightarrow>
               fst (upload_facility e f rc w) =
                 failed_result (''Server error: '' @ take 200 (body_text r)))
          \<and> (\<forall>m. json_body r = Inl m \<longrightarrow>
               fst (upload_facility e f rc w) =
                 failed_result (''Server error: '' @ take 200 (body_text r)))
          \<and> (\<forall>error_data s. json_body r = Inr error_data \<and> mentions s error_data \<and> plain s
               \<and> (py_in ''duplicate'' (lower s) \<or> py_in ''unique'' (lower s)) \<longrightarrow>
               fst (upload_facility e f rc w) = duplicate_result)"
  proof
    assume s: "status_code r = 500"
    note eq = inspected [OF s]
    have a: "fst (upload_facility e f rc w) = duplicate_result"
      if "json_body r = Inr error_data"
        "py_in ''duplicate'' (lower (py_str (repr e) error_data))
         \<or> py_in ''unique'' (lower (py_str (repr e) error_data))"
      for error_data
      unfolding eq using that by (auto simp: on_server_error_def Let_def duplicate_result_def)
    have b: "fst (upload_facility e f rc w) =
        failed_result (''Server error: '' @ take 200 (body_text r))"
      if "json_body r = Inr error_data"
        "\<not> py_in ''duplicate'' (lower (py_str (repr e) error_data))"
        "\<not> py_in ''unique'' (lower (py_str (repr e) error_data))"
      for error_data
      unfolding eq using that by (simp add: on_server_error_def Let_def)
    have c: "fst (upload_facility e f rc w) =
        failed_result (''Server error: '' @ take 200 (body_text r))"
      if "json_body r = Inl m" for m
      unfolding eq using that by (simp add: on_server_error_def Let_def)
    have d: "fst (upload_facility e f rc w) = duplicate_result"
      if "json_body r = Inr error_data" "mentions s error_data" "plain s"
        "py_in ''duplicate'' (lower s) \<or> py_in ''unique'' (lower s)"
      for error_data s
      using a [OF that(1) mentioned [OF that(2-4)]] .
    from a b c d show "(\<forall>error_data. json_body r = Inr error_data \<and>
               (py_in ''duplicate'' (lower (py_str (repr e) error_data))
                \<or> py_in ''unique'' (lower (py_str (repr e) error_data))) \<longrightarrow>
               fst (upload_facility e f rc w) = duplicate_result)
          \<and> (\<forall>error_data. json_body r = Inr error_data \<and>
               \<not> py_in ''duplicate'' (lower (py_str (repr e) error_data))
               \<and> \<not> py_in ''unique'' (lower (py_str (repr e) error_data)) \<longrightarrow>
               fst (upload_facility e f rc w) =
                 failed_result (''Server error: '' @ take 200 (body_text r)))
          \<and> (\<forall>m. json_body r = Inl m \<longrightarrow>
               fst (upload_facility e f rc w) =
                 failed_result (''Server error: '' @ take 200 (body_text r)))
          \<and> (\<forall>error_data s. json_body r = Inr error_data \<and> mentions s error_data \<and> plain s
               \<and> (py_in ''duplicate'' (lower s) \<or> py_in ''unique'' (lower s)) \<longrightarrow>
               fst (upload_facility e f rc w) = duplicate_result)"
      by blast
  qed
  have second: "500 < status_code r \<and> status_code r \<le> 599 \<longrightarrow>
            fst (upload_facility e f rc w) =
              failed_result (''HTTP '' @ str_int (status_code r) @ '': ''
                               @ take 200 (body_text r))"
  proof
    assume s: "500 < status_code r \<and> status_code r \<le> 599"
    then have "status_code r \<noteq> 200" "status_code r \<noteq> 401" "status_code r \<noteq> 500" by simp_all
    with assms have "attempt e f rc w =
        (Inr (Return (failed_result (''HTTP '' @ str_int (status_code r) @ '': ''
                                       @ take 200 (body_text r)))), ?w2)"
      by (simp add: attempt_def Let_def)
    from upload_return [OF this] show "fst (upload_facility e f rc w) =
        failed_result (''HTTP '' @ str_int (status_code r) @ '': '' @ take 200 (body_text r))"
      by simp
  qed
  from first second show ?thesis by (rule conjI)
qed

text \<open>Instances: status 500 with a JSON object whose message mentions a unique
  constraint, and status 503.\<close>

theorem server_error_classification_witness:
  "fst (upload_facility
          (demo_env [] [reply 500 ''{...}''
             (Inr (JObj [(''status'', JInt 500),
                         (''message'', JStr ''ERROR: unique constraint violated'')]))] [])
          demo_facility 0 demo_world) = duplicate_result
   \<and> fst (upload_facility
          (demo_env [] [reply 503 ''Service Unavailable''
             (Inr (JStr ''duplicate key''))] [])
          demo_facility 0 demo_world) = failed_result ''HTTP 503: Service Unavailable''"
proof -
  let ?j = "JObj [(''status'', JInt 500), (''message'', JStr ''ERROR: unique constraint violated'')]"
  let ?r = "\<lparr>status_code = 500, body_text = ''{...}'', json_body = Inr ?j\<rparr>"
  let ?r' = "\<lparr>status_code = 503, body_text = ''Service Unavailable'',
              json_body = Inr (JStr ''duplicate key'')\<rparr>"
  let ?w1 = "demo_world\<lparr>n_clock := 1\<rparr>"
  have h: "get_auth_headers (demo_env [] cs []) demo_world = (Inr (Bearer (JStr ''t0'')), ?w1)"
    for cs
    by (simp add: get_auth_headers_def Let_def)
  have m: "mentions ''unique constraint'' ?j" by simp
  have p: "plain ''unique constraint''" by (simp add: plain_def printable_def)
  have u: "py_in ''unique'' (lower ''unique constraint'')"
    by (simp add: lower_def lower_char_def)
  have c: "create_ep (demo_env [] [Resp ?r] []) (n_create ?w1) = Resp ?r"
    by (simp add: script_def demo_world_def)
  have c': "create_ep (demo_env [] [Resp ?r'] []) (n_create ?w1) = Resp ?r'"
    by (simp add: script_def demo_world_def)
  have s: "status_code ?r = 500" by simp
  note t = server_error_classification [OF h c, of demo_facility 0]
  from t s have d: "\<forall>error_data s. json_body ?r = Inr error_data \<and> mentions s error_data
      \<and> plain s \<and> (py_in ''duplicate'' (lower s) \<or> py_in ''unique'' (lower s)) \<longrightarrow>
      fst (upload_facility (demo_env [] [Resp ?r] []) demo_facility 0 demo_world) =
        duplicate_result"
    by blast
  have "fst (upload_facility (demo_env [] [Resp ?r] []) demo_facility 0 demo_world) =
      duplicate_result"
    using d [rule_format, of ?j "''unique constraint''"] m p u by simp
  moreover have "fst (upload_facility (demo_env [] [Resp ?r'] []) demo_facility 0 demo_world) =
      failed_result ''HTTP 503: Service Unavailable''"
    using server_error_classification [OF h c', of demo_facility 0]
    by (simp add: str_int_def)
  ultimately show ?thesis by (simp add: reply_def)
qed

text \<open>
  Claim C3 as stated fails twice. A response with status 503, which is a 5xx code, whose
  JSON body contains \<^verbatim>\<open>duplicate\<close> is FAILED: only the code 500 is inspected. And a
  response with status 500 whose body text contains \<^verbatim>\<open>unique constraint\<close> but is not
  JSON is FAILED as well.
\<close>

theorem server_error_counterexample:
  "status (fst (upload_facility
          (demo_env [] [reply 503 (CHR 0x22 # ''duplicate key'' @ [CHR 0x22]) (Inr (JStr ''duplicate key''))] [])
          demo_facility 0 demo_world)) = ''FAILED''
   \<and> py_in ''unique constraint'' ''unique constraint violation''
   \<and> status (fst (upload_facility
          (demo_env [] [reply 500 ''unique constraint violation''
                          (Inl ''Expecting value: line 1 column 1 (char 0)'')] [])
          demo_facility 0 demo_world)) = ''FAILED''"
  by (simp add: run_defs)

subsection \<open>Success and the follow-up fetch\<close>

text \<open>
  Claim C4, as amended. When the creation request is answered with status 200 and a body
  that holds the created identifier, the follow-up fetch for that identifier is issued,
  and when the fetch comes back with a response (of any status; with status 200, one
  whose body is a JSON object), the outcome is SUCCESS with the created identifier. The
  secondary identifier is empty when the status of the fetch is not 200 or its body has
  no such field.
\<close>

theorem created_success:
  assumes "get_auth_headers e w = (Inr h, w1)" "create_ep e (n_create w1) = Resp r"
    and "status_code r = 200" "json_body r = Inr j" "osid_of j = Inr oid"
    and "fetch_ep e (n_fetch w1) = Resp fr"
    and "status_code fr = 200 \<longrightarrow> (\<exists>kvs. json_body fr = Inr (JObj kvs))"
  shows "status (fst (upload_facility e f rc w)) = ''SUCCESS''
       \<and> osid (fst (upload_facility e f rc w)) = oid
       \<and> message (fst (upload_facility e f rc w)) = ''Created''
       \<and> FetchGet h oid \<in> set (trace (snd (upload_facility e f rc w)))
       \<and> (status_code fr \<noteq> 200 \<longrightarrow> wfId (fst (upload_facility e f rc w)) = JNull)
       \<and> (\<forall>kvs. status_code fr = 200 \<and> json_body fr = Inr (JObj kvs) \<longrightarrow>
            wfId (fst (upload_facility e f rc w)) =
              (case map_of kvs ''wfId'' of None \<Rightarrow> JNull | Some v \<Rightarrow> v))"
proof -
  let ?w2 = "w1\<lparr>n_create := n_create w1 + 1, trace := trace w1 @ [CreatePost h f]\<rparr>"
  let ?w3 = "?w2\<lparr>n_fetch := n_fetch ?w2 + 1, trace := trace ?w2 @ [FetchGet h oid]\<rparr>"
  let ?wf = "if status_code fr = 200
             then (case json_body fr of Inr (JObj kvs) \<Rightarrow>
                     (case map_of kvs ''wfId'' of None \<Rightarrow> JNull | Some v \<Rightarrow> v))
             else JNull"
  have oc: "on_created e h r ?w2 =
      (Inr \<lparr>status = ''SUCCESS'', osid = oid, wfId = ?wf, message = ''Created''\<rparr>, ?w3)"
  proof (cases "status_code fr = 200")
    case True
    with assms(7) obtain kvs where "json_body fr = Inr (JObj kvs)" by blast
    with True assms(4-6) show ?thesis by (simp add: on_created_def Let_def)
  next
    case False
    with assms(4-6) show ?thesis by (simp add: on_created_def Let_def)
  qed
  have "attempt e f rc w =
      (Inr (Return \<lparr>status = ''SUCCESS'', osid = oid, wfId = ?wf, message = ''Created''\<rparr>), ?w3)"
    using assms(1-3) oc by (simp add: attempt_def Let_def)
  from upload_return [OF this] show ?thesis by auto
qed

text \<open>An instance: the record is created and the fetch is answered 404.\<close>

theorem created_success_witness:
  "status (fst (upload_facility (demo_env [] [created] [not_found]) demo_facility 0 demo_world))
     = ''SUCCESS''
   \<and> wfId (fst (upload_facility (demo_env [] [created] [not_found]) demo_facility 0 demo_world))
     = JNull
   \<and> osid (fst (upload_facility (demo_env [] [created] [not_found]) demo_facility 0 demo_world))
     = JStr ''1-ab''"
  using created_success [of "demo_env [] [created] [not_found]" demo_world
      "Bearer (JStr ''t0'')" "demo_world\<lparr>n_clock := 1\<rparr>"
      "\<lparr>status_code = 200, body_text = ''{}'', json_body = Inr (JObj [(''result'',
          JObj [(''WaterFacility'', JObj [(''osid'', JStr ''1-ab'')])])])\<rparr>"
      "JObj [(''result'', JObj [(''WaterFacility'', JObj [(''osid'', JStr ''1-ab'')])])]"
      "JStr ''1-ab''"
      "\<lparr>status_code = 404, body_text = ''Not Found'',
        json_body = Inl ''Expecting value: line 1 column 1 (char 0)''\<rparr>"
      demo_facility 0]
  by (simp add: get_auth_headers_def demo_env_def demo_world_def script_def reply_def
      created_def not_found_def osid_of_def)

text \<open>Claim C4 as stated fails for a 2xx status other than 200: a creation answered
  201, with the created identifier in its body, is FAILED.\<close>

theorem created_201_counterexample:
  "fst (upload_facility
     (demo_env []
        [reply 201 ''Created'' (Inr (JObj [(''result'',
            JObj [(''WaterFacility'', JObj [(''osid'', JStr ''1-ab'')])])]))]
        [not_found])
     demo_facility 0 demo_world) = failed_result ''HTTP 201: Created''"
  by (simp add: run_defs)

text \<open>The follow-up fetch is inside the same try block: when it times out, the record
  that was just created is submitted again.\<close>

lemma fetch_timeout_resubmits:
  "creations (trace (snd (upload_facility
     (demo_env [] [created, created] [Raises (Timeout ''Read timed out.''), not_found])
     demo_facility 0 demo_world))) = [demo_facility, demo_facility]"
  by (simp add: run_defs)

subsection \<open>One retry counter\<close>

text \<open>
  Claim C5, as amended. The two classes of failure share the one counter
  \<^verbatim>\<open>retry_count\<close>: whatever the answers and their order, a submission that has made
  \<open>rc\<close> retries makes at most \<open>1 + (3 - rc)\<close> more creation requests and token
  requests and sleeps at most \<open>3 - rc\<close> more times; from the start that is four
  creation requests and three retries in all.
\<close>

theorem shared_retry_budget:
  "n_create (snd (upload_facility e f rc w)) \<le> n_create w + 1 + (max_retries - rc)
   \<and> n_token (snd (upload_facility e f rc w)) \<le> n_token w + 1 + (max_retries - rc)
   \<and> sleeps (snd (upload_facility e f rc w)) \<le> sleeps w + (max_retries - rc)"
  using upload_facility_counts [of e f rc w] by simp

text \<open>An instance: three answers 401 and a success are four creation requests.\<close>

theorem shared_retry_budget_witness:
  "n_create (snd (upload_facility
      (demo_env [granted, granted, granted] [refused, refused, refused, created] [not_found])
      demo_facility 0 demo_world)) \<le> 4"
  using shared_retry_budget [of
      "demo_env [granted, granted, granted] [refused, refused, refused, created] [not_found]"
      demo_facility 0 demo_world]
  by (simp add: max_retries_def)

text \<open>
  Claim C5 as stated fails: after three timeouts, each retried, the first answer 401 ends
  the submission with \<^verbatim>\<open>Auth failed after 3 retries\<close>, although no token was ever
  refreshed. The timeouts have used up the retries of the other class.
\<close>

theorem independent_budgets_counterexample:
  "fst (upload_facility
     (demo_env []
        [Raises (Timeout ''Read timed out.''), Raises (Timeout ''Read timed out.''),
         Raises (Timeout ''Read timed out.''), refused]
        [])
     demo_facility 0 demo_world) = failed_result ''Auth failed after 3 retries''
   \<and> n_token (snd (upload_facility
     (demo_env []
        [Raises (Timeout ''Read timed out.''), Raises (Timeout ''Read timed out.''),
         Raises (Timeout ''Read timed out.''), refused]
        [])
     demo_facility 0 demo_world)) = 0
   \<and> sleeps (snd (upload_facility
     (demo_env []
        [Raises (Timeout ''Read timed out.''), Raises (Timeout ''Read timed out.''),
         Raises (Timeout ''Read timed out.''), refused]
        [])
     demo_facility 0 demo_world)) = 3"
  by (simp add: run_defs)

section \<open>Properties of the driver\<close>

subsection \<open>The progress line\<close>

text \<open>
  Claim C8. For every processed count, every total and every elapsed time, and a batch
  size other than 0 (the driver uses 50), the computation of the progress line raises
  nothing: it yields no report or a rate and the remaining minutes. When the elapsed
  time is 0 the rate is 0, and when the rate is 0 the remaining time is 0.
\<close>

theorem progress_degenerate:
  assumes "batch_size \<noteq> 0"
  shows "\<exists>report. progress idx total_rows batch_size elapsed = Inr report
          \<and> (\<forall>rate eta_minutes. report = Some (rate, eta_minutes) \<longrightarrow>
                (elapsed = 0 \<longrightarrow> rate = 0) \<and> (rate = 0 \<longrightarrow> eta_minutes = 0))"
proof -
  have m: "py_mod idx batch_size = Inr (idx mod batch_size)"
    using assms by (simp add: py_mod_def)
  show ?thesis
  proof (cases "idx mod batch_size = 0 \<or> idx = total_rows")
    case False
    with m show ?thesis by (simp add: progress_def bind_exc_def)
  next
    case True
    show ?thesis
    proof (cases "0 < elapsed")
      case False
      with m True show ?thesis by (simp add: progress_def bind_exc_def)
    next
      case pos: True
      show ?thesis
      proof (cases "0 < of_int idx / elapsed")
        case True
        then have "of_int idx / elapsed \<noteq> 0" by (auto simp: zero_less_divide_iff)
        with True m \<open>idx mod batch_size = 0 \<or> idx = total_rows\<close> pos show ?thesis
          by (auto simp: progress_def bind_exc_def py_div_def)
      next
        case False
        with m \<open>idx mod batch_size = 0 \<or> idx = total_rows\<close> pos show ?thesis
          by (simp add: progress_def bind_exc_def py_div_def)
      qed
    qed
  qed
qed

text \<open>Instances: the fiftieth of 120 records after 0 and after 25 seconds.\<close>

theorem progress_degenerate_witness:
  "progress 50 120 50 0 = Inr (Some (0, 0)) \<and> progress 50 120 50 25 = Inr (Some (2, 7 / 12))"
  using progress_degenerate [of 50 50 120 0]
  by (simp add: progress_def bind_exc_def py_mod_def py_div_def)

subsection \<open>The entries of a run\<close>

lemma process_row_world: "snd (process_row e r (s, w)) = row_world e r w"
  by (simp add: process_row_def row_world_def split: sum.splits prod.splits)

lemma row_world_log:
  "log_file (row_world e r w) = log_file w @ entry_line (repr e) (row_entry e r w)"
proof (cases "row_to_facility e r")
  case (Inl x)
  then show ?thesis
    by (simp add: row_world_def process_row_def row_entry_def write_log_def log_result_def
        entry_line_def)
next
  case (Inr facility)
  obtain res w1 where u: "upload_facility e facility 0 w = (res, w1)"
    by (cases "upload_facility e facility 0 w")
  from upload_facility_counts [of e facility 0 w] u have "log_file w1 = log_file w" by simp
  with Inr u show ?thesis
    by (simp add: row_world_def process_row_def row_entry_def write_log_def log_result_def
        entry_line_def)
qed


lemma row_entry_time: "e_time (row_entry e r w) = now_text e (n_now w)"
proof (cases "row_to_facility e r")
  case (Inl x)
  then show ?thesis by (simp add: row_entry_def)
next
  case (Inr facility)
  obtain res w1 where u: "upload_facility e facility 0 w = (res, w1)"
    by (cases "upload_facility e facility 0 w")
  from upload_facility_counts [of e facility 0 w] u have "n_now w1 = n_now w" by simp
  with Inr u show ?thesis by (simp add: row_entry_def)
qed

lemma row_entry_key [simp]: "e_key (row_entry e r w) = str_key (float_repr e) (geo_code r)"
  by (simp add: row_entry_def split: sum.splits prod.splits)

lemma row_entry_status: "e_status (row_entry e r w) \<in> outcomes"
proof (cases "row_to_facility e r")
  case (Inl x)
  then show ?thesis by (simp add: row_entry_def outcomes_def)
next
  case (Inr facility)
  with upload_facility_status [of e facility 0 w] show ?thesis
    by (auto simp: row_entry_def split: prod.splits)
qed



lemma row_world_creations:
  "set (creations (trace (row_world e r w))) \<subseteq>
     set (creations (trace w)) \<union> {p. row_to_facility e r = Inr p}"
proof (cases "row_to_facility e r")
  case (Inl x)
  then show ?thesis by (simp add: row_world_def process_row_def write_log_def)
next
  case (Inr facility)
  obtain res w1 where u: "upload_facility e facility 0 w = (res, w1)"
    by (cases "upload_facility e facility 0 w")
  from upload_facility_counts [of e facility 0 w] u
  have "set (creations (trace w1)) \<subseteq> set (creations (trace w)) \<union> {facility}" by simp
  with Inr u show ?thesis by (auto simp: row_world_def process_row_def write_log_def)
qed

lemma fold_process_row: "snd (fold (process_row e) df (s, w)) = run_world e df w"
proof (induction df arbitrary: s w)
  case Nil
  then show ?case by simp
next
  case (Cons r rs)
  obtain s' w' where p: "process_row e r (s, w) = (s', w')" by (cases "process_row e r (s, w)")
  with process_row_world [of e r s w] have "w' = row_world e r w" by simp
  with p Cons.IH [of s' w'] show ?case by simp
qed

lemma bulk_upload_world: "snd (bulk_upload e df w) = run_world e df w"
  by (simp add: bulk_upload_def fold_process_row)

lemma run_world_log:
  "log_file (run_world e df w) = log_file w @ written_log (repr e) (run_entries e df w)"
  by (induction df arbitrary: w) (simp_all add: written_log_def row_world_log)


lemma run_world_creations:
  "set (creations (trace (run_world e df w))) \<subseteq>
     set (creations (trace w)) \<union> {p. \<exists>r\<in>set df. row_to_facility e r = Inr p}"
proof (induction df arbitrary: w)
  case Nil
  then show ?case by simp
next
  case (Cons r rs)
  from Cons.IH [of "row_world e r w"] row_world_creations [of e r w] show ?case
    by auto
qed

lemma run_entries_length [simp]: "length (run_entries e df w) = length df"
  by (induction df arbitrary: w) simp_all

lemma run_entries_keys:
  "map e_key (run_entries e df w) = map (\<lambda>r. str_key (float_repr e) (geo_code r)) df"
  by (induction df arbitrary: w) simp_all





lemma demo_payload:
  "row_to_facility demo_run (demo_row (KStr ''A'') (Val (VNum 7))) = Inr (PObj
     [(''geoCode'', PCell (Val (VStr ''A''))),
      (''waterPointType'', PCell (Val (VStr ''Hand pump''))),
      (''location'', PObj
         [(''county'', PCell (Val (VStr ''Bong''))),
          (''district'', PCell (Val (VStr ''Jorquelleh''))),
          (''community'', PCell (Val (VStr ''Gbarnga''))),
          (''coordinates'', PObj [(''lat'', PCell (Val (VNum 7))), (''lon'', PCell (Val (VNum (-9))))])])])"
  by (simp add: row_to_facility_def demo_row_def bind_exc_def row_item_def coordinate_def
      opt_field_def opt_truthy_field_def opt_float_field_def opt_yes_field_def)



section \<open>Resumption and cumulative statistics\<close>

subsection \<open>A log of entries is read back entry by entry\<close>

lemma entry_line_end: "entry_line rp x \<noteq> [] \<and> last (entry_line rp x) = LF"
  by (simp add: entry_line_def log_entry_def)

lemma written_log_end: "written_log rp xs = [] \<or> last (written_log rp xs) = LF"
proof (induction xs rule: rev_induct)
  case Nil
  then show ?case by (simp add: written_log_def)
next
  case (snoc x xs)
  have "written_log rp (xs @ [x]) = written_log rp xs @ entry_line rp x"
    by (simp add: written_log_def)
  with entry_line_end [of rp x] show ?case by simp
qed

lemma written_log_snoc:
  "written_log rp (xs @ [x]) =
     log_result rp (e_key x) (e_status x) (e_message x) (e_osid x) (e_wfId x) (e_time x)
       (written_log rp xs)"
  by (simp add: written_log_def log_result_def entry_line_def)

lemma written_log_append: "written_log rp (xs @ ys) = written_log rp xs @ written_log rp ys"
  by (simp add: written_log_def)

lemma load_uploaded_records_empty [simp]: "load_uploaded_records [] = {}"
  by (simp add: load_uploaded_records_def file_lines_def)

lemma get_upload_stats_empty [simp]:
  "get_upload_stats [] = \<lparr>success = 0, failed = 0, duplicate = 0\<rparr>"
  by (simp add: get_upload_stats_def file_lines_def)

text \<open>The set read back from a log of entries: the keys logged with SUCCESS, each without
  its leading white space.\<close>

lemma load_written_log_stripped:
  assumes "\<forall>x\<in>set xs. line_entry rp x"
  shows "load_uploaded_records (written_log rp xs) =
           set (map (dropWhile isspace) (success_keys xs))"
  using assms
proof (induction xs rule: rev_induct)
  case Nil
  then show ?case by (simp add: written_log_def success_keys_def)
next
  case (snoc x xs)
  then have c: "line_entry rp x"
    and ih: "load_uploaded_records (written_log rp xs) =
               set (map (dropWhile isspace) (success_keys xs))"
    by simp_all
  from c have "load_uploaded_records (written_log rp (xs @ [x])) =
      (if e_status x = ''SUCCESS'' then insert (dropWhile isspace (e_key x))
         (load_uploaded_records (written_log rp xs))
       else load_uploaded_records (written_log rp xs))"
    unfolding written_log_snoc
    by (intro load_uploaded_records_log_result written_log_end) (simp_all add: line_entry_def)
  with ih show ?case by (simp add: success_keys_def)
qed

lemma load_written_log:
  assumes "\<forall>x\<in>set xs. line_entry rp x" "\<forall>k\<in>set (success_keys xs). unspaced k"
  shows "load_uploaded_records (written_log rp xs) = set (success_keys xs)"
proof -
  have "map (dropWhile isspace) (success_keys xs) = success_keys xs"
    using assms(2) by (intro map_idI lstrip_unspaced) (simp add: unspaced_def)
  with load_written_log_stripped [OF assms(1)] show ?thesis by simp
qed

lemma stats_written_log:
  assumes "\<forall>x\<in>set xs. line_entry rp x"
  shows "get_upload_stats (written_log rp xs) =
           \<lparr>success = count_status ''SUCCESS'' xs, failed = count_status ''FAILED'' xs,
            duplicate = count_status ''DUPLICATE'' xs\<rparr>"
  using assms
proof (induction xs rule: rev_induct)
  case Nil
  then show ?case by (simp add: written_log_def count_status_def)
next
  case (snoc x xs)
  then have c: "line_entry rp x" and ih: "get_upload_stats (written_log rp xs) =
           \<lparr>success = count_status ''SUCCESS'' xs, failed = count_status ''FAILED'' xs,
            duplicate = count_status ''DUPLICATE'' xs\<rparr>"
    by simp_all
  from c have "get_upload_stats (written_log rp (xs @ [x])) =
      count_outcome (e_status x) (get_upload_stats (written_log rp xs))"
    unfolding written_log_snoc
    by (intro get_upload_stats_log_result written_log_end) (simp_all add: line_entry_def)
  moreover from c have "e_status x \<in> outcomes" by (simp add: line_entry_def)
  ultimately show ?case using ih
    by (auto simp: count_outcome_def count_status_def outcomes_def)
qed

text \<open>For every content of the file, the statistics are the numbers of lines with each
  outcome as field 1.\<close>

lemma stats_step_field: "stats_step line st = count_outcome (outcome_field line) st"
  by (simp add: stats_step_def outcome_field_def count_outcome_def Let_def)

lemma fold_stats_step:
  "fold stats_step ls st =
     \<lparr>success = success st + length (filter (\<lambda>line. outcome_field line = ''SUCCESS'') ls),
      failed = failed st + length (filter (\<lambda>line. outcome_field line = ''FAILED'') ls),
      duplicate = duplicate st + length (filter (\<lambda>line. outcome_field line = ''DUPLICATE'') ls)\<rparr>"
proof (induction ls arbitrary: st)
  case Nil
  then show ?case by simp
next
  case (Cons l ls)
  show ?case
    unfolding fold_simps Cons.IH by (simp add: stats_step_field count_outcome_def)
qed

lemma stats_count_lines:
  "get_upload_stats content =
     \<lparr>success = count_lines ''SUCCESS'' content, failed = count_lines ''FAILED'' content,
      duplicate = count_lines ''DUPLICATE'' content\<rparr>"
  by (simp add: get_upload_stats_def fold_stats_step count_lines_def)

lemma bind_exc_Inr: "bind_exc m f = Inr p \<Longrightarrow> \<exists>a. m = Inr a \<and> f a = Inr p"
  by (cases m) (simp_all add: bind_exc_def)

lemma row_to_facility_geoCode:
  "row_to_facility e r = Inr p \<Longrightarrow>
     geoCode p = Some (PCell (Val (VStr (str_key (float_repr e) (geo_code r)))))"
  by (auto simp: row_to_facility_def dest!: bind_exc_Inr)

subsection \<open>What an invocation does to the log and to the trace\<close>

lemma main_world:
  "snd (main e df w) = snd (get_token e w)
   \<or> snd (main e df w) =
        run_world e (records_to_upload (load_uploaded_records (log_file w)) df)
          (snd (get_token e w))"
proof (cases "get_token e w")
  case (Pair a w1)
  from get_token_quiet [OF Pair] have l: "log_file w1 = log_file w" by (simp add: quiet_def)
  show ?thesis
  proof (cases a)
    case (Inl x)
    with Pair show ?thesis by (simp add: main_def)
  next
    case (Inr ok)
    show ?thesis
    proof (cases "fromtimestamp e (expires_at w1)")
      case (Inl m)
      with Pair Inr show ?thesis by (simp add: main_def)
    next
      case expires: (Inr expires)
      with Pair Inr l show ?thesis
        by (simp add: main_def Let_def bulk_upload_world)
    qed
  qed
qed

lemma main_creations:
  "set (creations (trace (snd (main e df w)))) \<subseteq>
     set (creations (trace w))
     \<union> {p. \<exists>r\<in>set (records_to_upload (load_uploaded_records (log_file w)) df).
             row_to_facility e r = Inr p}"
proof -
  obtain a w1 where g: "get_token e w = (a, w1)" by (cases "get_token e w")
  from get_token_quiet [OF g] have c: "creations (trace w1) = creations (trace w)"
    by (simp add: quiet_def)
  from main_world [of e df w] g c
    run_world_creations [of e "records_to_upload (load_uploaded_records (log_file w)) df" w1]
  show ?thesis by auto
qed

lemmas log_defs = load_uploaded_records_def get_upload_stats_def file_lines_def uploaded_step_def
  stats_step_def strip_def isspace_def written_log_def entry_line_def log_result_def log_entry_def
  or_empty_def PIPE_def LF_def CR_def single_line_def outcomes_def

lemmas row_defs = row_to_facility_def demo_row_def bind_exc_def row_item_def coordinate_def
  opt_field_def opt_truthy_field_def opt_float_field_def opt_yes_field_def lower_def lower_char_def

text \<open>
  Claim C1. The claim is that no key with a SUCCESS entry in the log is submitted by a
  later invocation. The program says the same of itself (\<^verbatim>\<open>Skip already uploaded
  records based on log file\<close>, \<^verbatim>\<open>Filter out already uploaded records\<close>), and it
  does so for the string key \<^verbatim>\<open>A1\<close> below. It misses it in two cases.

  When every key of the file is a whole number, \<^verbatim>\<open>pandas\<close> reads the column as
  integers, while the set read from the log holds strings: \<^verbatim>\<open>isin\<close> is false for every
  row, and nothing is filtered out. A first invocation on an empty log uploads the record
  with key 1001 and logs it with SUCCESS; a second invocation, with that log, makes a
  creation request for the key 1001 again.

  When a key begins with white space, \<^verbatim>\<open>load_uploaded_records\<close> returns it without
  the white space, because it strips the line before it splits it: after the record with
  key \<^verbatim>\<open> A1\<close> was logged with SUCCESS, the next invocation submits it again.
\<close>

theorem resume_resubmits_success:
  "log_file (snd (main (demo_env [granted] [created] [not_found])
       [demo_row (KInt 1001) NaN] demo_world)) =
     ''1001|SUCCESS|Created|1-ab||2024-05-01 10:00:00'' @ [LF]
   \<and> load_uploaded_records (''1001|SUCCESS|Created|1-ab||2024-05-01 10:00:00'' @ [LF]) =
        {''1001''}
   \<and> map geoCode (creations (trace (snd (main (demo_env [granted] [created] [not_found])
       [demo_row (KInt 1001) NaN]
       (demo_world\<lparr>log_file := ''1001|SUCCESS|Created|1-ab||2024-05-01 10:00:00'' @ [LF]\<rparr>)))))
     = [Some (PCell (Val (VStr ''1001'')))]
   \<and> log_file (snd (main (demo_env [granted] [created] [not_found])
       [demo_row (KStr '' A1'') NaN] demo_world)) =
     '' A1|SUCCESS|Created|1-ab||2024-05-01 10:00:00'' @ [LF]
   \<and> map geoCode (creations (trace (snd (main (demo_env [granted] [created] [not_found])
       [demo_row (KStr '' A1'') NaN]
       (demo_world\<lparr>log_file := '' A1|SUCCESS|Created|1-ab||2024-05-01 10:00:00'' @ [LF]\<rparr>)))))
     = [Some (PCell (Val (VStr '' A1'')))]
   \<and> creations (trace (snd (main (demo_env [granted] [created] [not_found])
       [demo_row (KStr ''A1'') NaN]
       (demo_world\<lparr>log_file := ''A1|SUCCESS|Created|1-ab||2024-05-01 10:00:00'' @ [LF]\<rparr>))))
     = []"
  by (simp add: main_def bulk_upload_def process_row_def run_defs log_defs row_defs
      records_to_upload_def write_log_def repr_def)

subsection \<open>Texts free of line breaks\<close>

lemma single_line_take: "single_line s \<Longrightarrow> single_line (take n s)"
  by (auto simp: single_line_def dest: in_set_takeD)

lemma single_line_Nil [simp]: "single_line []"
  by (simp add: single_line_def)

lemma tidy_excI: "single_line (str_exc x) \<Longrightarrow> tidy_exc x"
  by (simp add: tidy_exc_def single_line_take)

lemma type_name_single_line: "single_line (type_name v)"
  by (cases v) (simp_all add: single_line_def LF_def CR_def)

lemma quoted_single_line: "single_line s \<Longrightarrow> single_line (quoted s)"
  by (simp add: quoted_def single_line_def LF_def CR_def)

lemma subscript_tidy:
  assumes "subscript v k = Inl x" "single_line k"
  shows "tidy_exc x"
proof (rule tidy_excI)
  from assms show "single_line (str_exc x)"
    by (cases v)
      (auto simp: key_error_def quoted_def single_line_def LF_def CR_def split: option.splits)
qed

lemma py_get_tidy:
  assumes "py_get v k = Inl x"
  shows "tidy_exc x"
proof (rule tidy_excI)
  from assms show "single_line (str_exc x)"
    by (cases v) (auto simp: quoted_def single_line_def LF_def CR_def)
qed

lemma add_float_tidy:
  assumes "add_float t v = Inl x"
  shows "tidy_exc x"
proof (rule tidy_excI)
  from assms show "single_line (str_exc x)"
    by (cases v) (auto simp: quoted_def single_line_def LF_def CR_def split: if_splits)
qed

lemma osid_of_tidy:
  assumes "osid_of j = Inl x"
  shows "tidy_exc x"
proof -
  have k: "single_line ''result''" "single_line ''WaterFacility''" "single_line ''osid''"
    by (simp_all add: single_line_def LF_def CR_def)
  from assms k show ?thesis
    by (auto simp: osid_of_def split: sum.splits dest: subscript_tidy)
qed

lemma digits_single_line: "single_line (digits n)"
proof (induction n rule: digits.induct)
  case (1 n)
  have d: "single_line [''0123456789'' ! k]" if "k < 10" for k
  proof -
    from that have "k \<in> {0, 1, 2, 3, 4, 5, 6, 7, 8, 9}" by auto
    then show ?thesis by (auto simp: single_line_def LF_def CR_def)
  qed
  show ?case
  proof (cases "n < 10")
    case True
    with d show ?thesis by (simp add: digits.simps [of n])
  next
    case False
    with 1 d [of "n mod 10"] show ?thesis by (simp add: digits.simps [of n])
  qed
qed

lemma str_int_single_line: "single_line (str_int i)"
  using digits_single_line
  by (simp add: str_int_def single_line_def LF_def CR_def del: digits.simps)

lemma tidy_answer_Raises: "tidy_answer (Raises x) \<Longrightarrow> tidy_exc x"
  by (simp add: tidy_answer_def)

lemma tidy_answer_json:
  "tidy_answer (Resp r) \<Longrightarrow> json_body r = Inl m \<Longrightarrow> tidy_exc (Fault m)"
  by (simp add: tidy_answer_def tidy_exc_def)

lemma tidy_answer_text: "tidy_answer (Resp r) \<Longrightarrow> single_line (take 200 (body_text r))"
  by (simp add: tidy_answer_def)

lemma get_token_tidy:
  assumes "tidy_answer (token_ep e (n_token w))" "get_token e w = (Inl x, w')"
  shows "tidy_exc x"
proof (cases "token_ep e (n_token w)")
  case (Raises y)
  with assms(2) have "x = y" by (simp add: get_token_def Let_def)
  with assms(1) Raises show ?thesis by (simp add: tidy_answer_Raises)
next
  case (Resp r)
  show ?thesis
  proof (cases "status_code r = 200")
    case False
    with assms(2) Resp show ?thesis by (simp add: get_token_def Let_def)
  next
    case True
    show ?thesis
    proof (cases "json_body r")
      case (Inl m)
      with assms(2) Resp True have "x = Fault m" by (simp add: get_token_def Let_def)
      with assms(1) Resp Inl show ?thesis by (simp add: tidy_answer_json)
    next
      case (Inr data)
      have k: "single_line ''access_token''" "single_line ''expires_in''"
        by (simp_all add: single_line_def LF_def CR_def)
      from assms(2) Resp True Inr show ?thesis
        by (auto simp: get_token_def Let_def split: sum.splits
            dest: subscript_tidy [OF _ k(1)] subscript_tidy [OF _ k(2)] add_float_tidy)
    qed
  qed
qed

lemma refresh_tidy:
  assumes "tidy_answer (token_ep e (n_token w))" "refresh e w = (Inl x, w')"
  shows "tidy_exc x"
proof (cases "get_token e w")
  case (Pair a w1)
  show ?thesis
  proof (cases a)
    case (Inl y)
    with Pair assms(2) have "x = y" by (simp add: refresh_def)
    with get_token_tidy [OF assms(1)] Pair Inl show ?thesis by simp
  next
    case (Inr ok)
    have "single_line ''Failed to obtain access token''"
      by (simp add: single_line_def LF_def CR_def)
    then have "tidy_exc (Fault ''Failed to obtain access token'')"
      by (intro tidy_excI) simp
    with Pair Inr assms(2) show ?thesis by (auto simp: refresh_def split: if_splits)
  qed
qed

lemma get_auth_headers_tidy:
  assumes "tidy e" "get_auth_headers e w = (Inl x, w')"
  shows "tidy_exc x"
proof -
  have t: "tidy_answer (token_ep e n)" for n using assms(1) by (simp add: tidy_def)
  from assms(2) have "refresh e w = (Inl x, w') \<or> refresh e (w\<lparr>n_clock := n_clock w + 1\<rparr>) = (Inl x, w')"
    by (auto simp: get_auth_headers_def Let_def split: if_splits)
  then show ?thesis
  proof
    assume "refresh e w = (Inl x, w')"
    with refresh_tidy [OF t] show ?thesis by blast
  next
    assume "refresh e (w\<lparr>n_clock := n_clock w + 1\<rparr>) = (Inl x, w')"
    with refresh_tidy [OF t] show ?thesis by blast
  qed
qed

lemma created_result_tidy [simp]: "single_line ''Created''"
  by (simp add: single_line_def LF_def CR_def)

lemma on_created_tidy:
  assumes "tidy e" "on_created e h r w = (a, w')" "tidy_answer (Resp r)"
    and "tidy_created (repr e) (Resp r)"
  shows "case a of Inl x \<Rightarrow> tidy_exc x | Inr res \<Rightarrow> tidy_result (repr e) res"
proof (cases "json_body r")
  case (Inl m)
  with assms(2) have "a = Inl (Fault m)" by (simp add: on_created_def)
  with assms(3) Inl show ?thesis by (simp add: tidy_answer_json)
next
  case (Inr j)
  show ?thesis
  proof (cases "osid_of j")
    case (Inl x)
    with assms(2) Inr have "a = Inl x" by (simp add: on_created_def)
    with osid_of_tidy [OF Inl] show ?thesis by simp
  next
    case oid: (Inr oid)
    from assms(4) Inr oid have so: "single_line (or_empty (repr e) oid)"
      by (simp add: tidy_created_def)
    have tf: "tidy_answer (fetch_ep e (n_fetch w))" "tidy_fetched (repr e) (fetch_ep e (n_fetch w))"
      using assms(1) by (simp_all add: tidy_def)
    show ?thesis
    proof (cases "fetch_ep e (n_fetch w)")
      case (Raises x)
      with assms(2) Inr oid have "a = Inl x" by (simp add: on_created_def Let_def)
      with tf(1) Raises show ?thesis by (simp add: tidy_answer_Raises)
    next
      case (Resp fr)
      show ?thesis
      proof (cases "status_code fr = 200")
        case False
        with assms(2) Inr oid Resp so show ?thesis
          by (auto simp: on_created_def Let_def tidy_result_def or_empty_def)
      next
        case True
        show ?thesis
        proof (cases "json_body fr")
          case (Inl m)
          with assms(2) Inr oid Resp True have "a = Inl (Fault m)"
            by (simp add: on_created_def Let_def)
          with tf(1) Resp Inl show ?thesis by (simp add: tidy_answer_json)
        next
          case fj: (Inr fj)
          show ?thesis
          proof (cases "py_get fj ''wfId''")
            case (Inl x)
            with assms(2) Inr oid Resp True fj have "a = Inl x"
              by (simp add: on_created_def Let_def)
            with py_get_tidy [OF Inl] show ?thesis by simp
          next
            case v: (Inr v)
            with tf(2) Resp fj have "single_line (or_empty (repr e) v)"
              by (simp add: tidy_fetched_def)
            with assms(2) Inr oid Resp True fj v so show ?thesis
              by (auto simp: on_created_def Let_def tidy_result_def)
          qed
        qed
      qed
    qed
  qed
qed

lemma single_line_Cons: "single_line (c # s) = (c \<noteq> LF \<and> c \<noteq> CR \<and> single_line s)"
  by (auto simp: single_line_def)

lemma failed_result_tidy: "single_line m \<Longrightarrow> tidy_result rp (failed_result m)"
  by (simp add: tidy_result_def failed_result_def or_empty_def)

lemma on_server_error_tidy:
  assumes "tidy_answer (Resp r)"
  shows "tidy_result (repr e) (on_server_error e r)"
proof -
  have srv: "tidy_result (repr e)
      (failed_result (''Server error: '' @ take 200 (body_text r)))"
    using tidy_answer_text [OF assms]
    by (intro failed_result_tidy) (simp add: single_line_Cons LF_def CR_def)
  have dup: "tidy_result (repr e)
      \<lparr>status = ''DUPLICATE'', osid = JNull, wfId = JNull, message = ''Duplicate wfId''\<rparr>"
    by (simp add: tidy_result_def or_empty_def single_line_Cons LF_def CR_def)
  show ?thesis
  proof (cases "json_body r")
    case (Inl m)
    with srv show ?thesis by (simp add: on_server_error_def Let_def)
  next
    case (Inr d)
    with srv dup show ?thesis by (simp add: on_server_error_def Let_def)
  qed
qed

lemma attempt_tidy:
  assumes "tidy e" "attempt e f rc w = (a, w')"
  shows "case a of Inl x \<Rightarrow> tidy_exc x | Inr (Return res) \<Rightarrow> tidy_result (repr e) res
         | Inr Retry \<Rightarrow> True"
proof (cases "get_auth_headers e w")
  case (Pair g w1)
  show ?thesis
  proof (cases g)
    case (Inl x)
    with assms(2) Pair have "a = Inl x" by (simp add: attempt_def)
    with get_auth_headers_tidy [OF assms(1)] Pair Inl show ?thesis by simp
  next
    case (Inr h)
    let ?w2 = "w1\<lparr>n_create := n_create w1 + 1, trace := trace w1 @ [CreatePost h f]\<rparr>"
    have tc: "tidy_answer (create_ep e (n_create w1))"
      "tidy_created (repr e) (create_ep e (n_create w1))"
      using assms(1) by (simp_all add: tidy_def)
    show ?thesis
    proof (cases "create_ep e (n_create w1)")
      case (Raises x)
      with assms(2) Pair Inr have "a = Inl x" by (simp add: attempt_def Let_def)
      with tc(1) Raises show ?thesis by (simp add: tidy_answer_Raises)
    next
      case (Resp r)
      show ?thesis
      proof (cases "status_code r = 200")
        case True
        obtain b w3 where oc: "on_created e h r ?w2 = (b, w3)" by (cases "on_created e h r ?w2")
        from on_created_tidy [OF assms(1) oc] tc Resp
        have t: "case b of Inl x \<Rightarrow> tidy_exc x | Inr res \<Rightarrow> tidy_result (repr e) res" by simp
        from assms(2) Pair Inr Resp True oc have "a = (case b of Inl x \<Rightarrow> Inl x | Inr res \<Rightarrow> Inr (Return res))"
          by (cases b) (simp_all add: attempt_def Let_def)
        with t show ?thesis by (cases b) simp_all
      next
        case False
        have fixed: "single_line ''Auth failed after ''" "single_line '' retries''"
          "single_line ''HTTP ''" "single_line '': ''"
          by (simp_all add: single_line_def LF_def CR_def)
        have auth: "tidy_result (repr e)
            (failed_result (''Auth failed after '' @ str_int (int max_retries) @ '' retries''))"
          using str_int_single_line
          by (intro failed_result_tidy) (simp add: single_line_Cons LF_def CR_def)
        have http: "tidy_result (repr e)
            (failed_result (''HTTP '' @ str_int (status_code r) @ '': '' @ take 200 (body_text r)))"
          using str_int_single_line tidy_answer_text [of r] tc(1) Resp
          by (intro failed_result_tidy) (simp add: single_line_Cons LF_def CR_def)
        have srv: "tidy_result (repr e) (on_server_error e r)"
          using tc(1) Resp by (intro on_server_error_tidy) simp
        from assms(2) Pair Inr Resp False auth http srv show ?thesis
          by (auto simp: attempt_def Let_def split: if_splits)
      qed
    qed
  qed
qed

lemma upload_facility_tidy:
  assumes "tidy e"
  shows "tidy_result (repr e) (fst (upload_facility e f rc w))"
proof -
  from upload_facility_final [of e f rc w] obtain rc' w0 a w1 where
    a: "attempt e f rc' w0 = (a, w1)"
      "(case a of
          Inr (Return r) \<Rightarrow> fst (upload_facility e f rc w) = r
        | Inr Retry \<Rightarrow> False
        | Inl (Timeout m) \<Rightarrow> fst (upload_facility e f rc w) = failed_result ''Timeout after retries''
        | Inl (Fault m) \<Rightarrow> fst (upload_facility e f rc w) = failed_result (take 200 m))"
    by blast
  note t = attempt_tidy [OF assms a(1)]
  have to: "tidy_result (repr e) (failed_result ''Timeout after retries'')"
    by (intro failed_result_tidy) (simp add: single_line_def LF_def CR_def)
  show ?thesis
  proof (cases a)
    case (Inl x)
    show ?thesis
    proof (cases x)
      case (Timeout m)
      with a(2) Inl to show ?thesis by simp
    next
      case (Fault m)
      with t Inl have "single_line (take 200 m)" by (simp add: tidy_exc_def)
      with a(2) Inl Fault show ?thesis by (simp add: failed_result_tidy)
    qed
  next
    case (Inr s)
    with a(2) t show ?thesis by (cases s) simp_all
  qed
qed

lemma row_entry_line:
  assumes "tidy e" "loggable e r"
  shows "line_entry (repr e) (row_entry e r w)"
proof -
  from assms(2) have key: "PIPE \<notin> set (str_key (float_repr e) (geo_code r))"
    "single_line (str_key (float_repr e) (geo_code r))"
    and err: "\<And>x. row_to_facility e r = Inl x \<Longrightarrow> single_line (str_exc x)"
    by (simp_all add: loggable_def)
  have now: "single_line (now_text e n)" for n using assms(1) by (simp add: tidy_def)
  have st: "e_status (row_entry e r w) \<in> outcomes" by (rule row_entry_status)
  have tm: "single_line (e_time (row_entry e r w))" by (simp add: row_entry_time now)
  have rest: "single_line (e_message (row_entry e r w))
      \<and> single_line (or_empty (repr e) (e_osid (row_entry e r w)))
      \<and> single_line (or_empty (repr e) (e_wfId (row_entry e r w)))"
  proof (cases "row_to_facility e r")
    case (Inl x)
    from Inl err [OF Inl] show ?thesis
      by (simp add: row_entry_def or_empty_def single_line_Cons LF_def CR_def)
  next
    case (Inr facility)
    obtain res w1 where u: "upload_facility e facility 0 w = (res, w1)"
      by (cases "upload_facility e facility 0 w")
    with upload_facility_tidy [OF assms(1), of facility 0 w] have "tidy_result (repr e) res" by simp
    with Inr u show ?thesis by (simp add: row_entry_def tidy_result_def)
  qed
  from key st tm rest show ?thesis by (simp add: line_entry_def)
qed

lemma run_entries_line:
  assumes "tidy e" "tidy_rows e df"
  shows "\<forall>x\<in>set (run_entries e df w). line_entry (repr e) x"
  using assms(2)
proof (induction df arbitrary: w)
  case Nil
  then show ?case by simp
next
  case (Cons r rs)
  then have "loggable e r" "tidy_rows e rs" by (simp_all add: tidy_rows_def)
  with Cons.IH [of "row_world e r w"] row_entry_line [OF assms(1), of r w] show ?case by simp
qed

lemma success_keys_append: "success_keys (xs @ ys) = success_keys xs @ success_keys ys"
  by (simp add: success_keys_def)

lemma count_status_success: "count_status ''SUCCESS'' xs = length (success_keys xs)"
  by (simp add: count_status_def success_keys_def)

lemma tidy_rows_filter: "tidy_rows e df \<Longrightarrow> tidy_rows e (filter P df)"
  by (auto simp: tidy_rows_def)

lemma success_keys_subset: "set (success_keys xs) \<subseteq> set (map e_key xs)"
  by (auto simp: success_keys_def)

text \<open>The text of a key that is a string is the string.\<close>

lemma text_keyD: "text_key k \<Longrightarrow> \<exists>s. k = KStr s \<and> unspaced s \<and> str_key fr k = s"
  by (cases k) (simp_all add: text_key_def)

lemma str_key_inj: "text_key k \<Longrightarrow> text_key k' \<Longrightarrow> str_key fr k = str_key fr k' \<Longrightarrow> k = k'"
  by (cases k; cases k') (simp_all add: text_key_def)

subsection \<open>Statistics over all runs\<close>

text \<open>
  Claim C7, as amended. For every content of the log file, \<^verbatim>\<open>get_upload_stats\<close>
  returns the numbers of lines whose field 1 is SUCCESS, FAILED and DUPLICATE. For a log
  of entries written by \<^verbatim>\<open>log_result\<close> with keys free of \<^verbatim>\<open>|\<close> and all fields free
  of line breaks, these are the numbers of SUCCESS, FAILED and DUPLICATE entries of the
  whole log; and after an invocation, with an environment that returns texts free of line
  breaks and rows that the log can receive, the log is the old entries followed by the
  new ones, again such a log, and the statistics are the counts over the old and the new
  entries together. If moreover the keys logged with SUCCESS do not begin with white
  space and no key has two SUCCESS entries, and the keys of the table are strings that do
  not begin with white space and are pairwise distinct, then the same holds of the log
  after the invocation, and the number of successes is the number of uploaded keys. All
  this holds again for the next invocation, so it holds after any number of runs.
\<close>

theorem cumulative_stats:
  assumes "\<forall>x\<in>set old. line_entry (repr e) x"
    and "log_file w = written_log (repr e) old"
    and "tidy e" "tidy_rows e df"
  shows "get_upload_stats content =
           \<lparr>success = count_lines ''SUCCESS'' content, failed = count_lines ''FAILED'' content,
            duplicate = count_lines ''DUPLICATE'' content\<rparr>
       \<and> get_upload_stats (log_file w) =
           \<lparr>success = count_status ''SUCCESS'' old, failed = count_status ''FAILED'' old,
            duplicate = count_status ''DUPLICATE'' old\<rparr>
       \<and> (\<exists>new. log_file (snd (main e df w)) = written_log (repr e) (old @ new)
             \<and> (\<forall>x\<in>set (old @ new). line_entry (repr e) x)
             \<and> get_upload_stats (log_file (snd (main e df w))) =
                 \<lparr>success = count_status ''SUCCESS'' (old @ new),
                  failed = count_status ''FAILED'' (old @ new),
                  duplicate = count_status ''DUPLICATE'' (old @ new)\<rparr>
             \<and> ((\<forall>k\<in>set (success_keys old). unspaced k) \<and> distinct (success_keys old)
                  \<and> (\<forall>r\<in>set df. text_key (geo_code r)) \<and> distinct (map geo_code df) \<longrightarrow>
                  (\<forall>k\<in>set (success_keys (old @ new)). unspaced k)
                  \<and> distinct (success_keys (old @ new))
                  \<and> success (get_upload_stats (log_file (snd (main e df w)))) =
                      card (load_uploaded_records (log_file (snd (main e df w))))))"
proof -
  let ?todo = "records_to_upload (load_uploaded_records (log_file w)) df"
  let ?fr = "float_repr e"
  obtain a w1 where g: "get_token e w = (a, w1)" by (cases "get_token e w")
  from get_token_quiet [OF g] have l: "log_file w1 = log_file w" by (simp add: quiet_def)
  have first: "get_upload_stats (log_file w) =
           \<lparr>success = count_status ''SUCCESS'' old, failed = count_status ''FAILED'' old,
            duplicate = count_status ''DUPLICATE'' old\<rparr>"
    using stats_written_log [OF assms(1)] assms(2) by simp
  have inv: "(\<forall>x\<in>set (old @ new). line_entry (repr e) x)
       \<and> get_upload_stats (log_file w') =
           \<lparr>success = count_status ''SUCCESS'' (old @ new),
            failed = count_status ''FAILED'' (old @ new),
            duplicate = count_status ''DUPLICATE'' (old @ new)\<rparr>
       \<and> ((\<forall>k\<in>set (success_keys old). unspaced k) \<and> distinct (success_keys old)
            \<and> (\<forall>r\<in>set df. text_key (geo_code r)) \<and> distinct (map geo_code df) \<longrightarrow>
            (\<forall>k\<in>set (success_keys (old @ new)). unspaced k)
            \<and> distinct (success_keys (old @ new))
            \<and> success (get_upload_stats (log_file w')) = card (load_uploaded_records (log_file w')))"
    if a: "log_file w' = written_log (repr e) (old @ new)"
      "\<forall>x\<in>set new. line_entry (repr e) x"
      "map e_key new = map (\<lambda>r. str_key ?fr (geo_code r)) rows"
      "set rows \<subseteq> set ?todo" "distinct (map geo_code df) \<longrightarrow> distinct (map geo_code rows)"
    for w' new rows
  proof -
    from a(2) assms(1) have c: "\<forall>x\<in>set (old @ new). line_entry (repr e) x" by auto
    from stats_written_log [OF c] a(1)
    have s: "get_upload_stats (log_file w') =
           \<lparr>success = count_status ''SUCCESS'' (old @ new),
            failed = count_status ''FAILED'' (old @ new),
            duplicate = count_status ''DUPLICATE'' (old @ new)\<rparr>" by simp
    have u: "(\<forall>k\<in>set (success_keys (old @ new)). unspaced k)
            \<and> distinct (success_keys (old @ new))
            \<and> success (get_upload_stats (log_file w')) = card (load_uploaded_records (log_file w'))"
      if h: "\<forall>k\<in>set (success_keys old). unspaced k" "distinct (success_keys old)"
        "\<forall>r\<in>set df. text_key (geo_code r)" "distinct (map geo_code df)"
    proof -
      have up: "load_uploaded_records (log_file w) = set (success_keys old)"
        using load_written_log [OF assms(1) h(1)] assms(2) by simp
      have tkey: "text_key (geo_code r)" if "r \<in> set rows" for r
        using that a(4) h(3) by (auto simp: records_to_upload_def)
      have keys: "set (map e_key new) = (\<lambda>r. str_key ?fr (geo_code r)) ` set rows"
        using a(3) by simp
      have sp: "unspaced k" if "k \<in> set (map e_key new)" for k
      proof -
        from that keys obtain r where r: "r \<in> set rows" "k = str_key ?fr (geo_code r)" by auto
        from text_keyD [OF tkey [OF r(1)], of ?fr] r(2) show ?thesis by auto
      qed
      have fresh: "k \<notin> set (success_keys old)" if "k \<in> set (map e_key new)" for k
      proof -
        from that keys obtain r where r: "r \<in> set rows" "k = str_key ?fr (geo_code r)" by auto
        from text_keyD [OF tkey [OF r(1)], of ?fr] r(2) have k: "geo_code r = KStr k" by auto
        from r(1) a(4) have "\<not> isin (geo_code r) (load_uploaded_records (log_file w))"
          by (auto simp: records_to_upload_def)
        with k up show ?thesis by simp
      qed
      have inj: "inj_on (str_key ?fr) (set (map geo_code rows))"
        using tkey by (intro inj_onI) (auto dest: str_key_inj)
      from a(5) h(4) have dg: "distinct (map geo_code rows)" by blast
      have "distinct (map (str_key ?fr) (map geo_code rows))"
        by (rule iffD2 [OF distinct_map, OF conjI [OF dg inj]])
      with a(3) have "distinct (map e_key new)" by (simp add: comp_def)
      then have dn: "distinct (success_keys new)"
        unfolding success_keys_def by (rule distinct_map_filter)
      have sub: "set (success_keys new) \<subseteq> set (map e_key new)" by (rule success_keys_subset)
      from sub sp h(1) have un: "\<forall>k\<in>set (success_keys (old @ new)). unspaced k"
        by (auto simp: success_keys_append)
      from sub fresh dn h(2) have d: "distinct (success_keys (old @ new))"
        by (auto simp: success_keys_append)
      from load_written_log [OF c un] a(1)
      have "load_uploaded_records (log_file w') = set (success_keys (old @ new))" by simp
      with d s have "success (get_upload_stats (log_file w')) =
          card (load_uploaded_records (log_file w'))"
        by (simp add: count_status_success distinct_card)
      with un d show ?thesis by blast
    qed
    from c s u show ?thesis by blast
  qed
  from main_world [of e df w] g
  consider "snd (main e df w) = w1" | "snd (main e df w) = run_world e ?todo w1" by auto
  then have "\<exists>new. log_file (snd (main e df w)) = written_log (repr e) (old @ new)
             \<and> (\<forall>x\<in>set (old @ new). line_entry (repr e) x)
             \<and> get_upload_stats (log_file (snd (main e df w))) =
                 \<lparr>success = count_status ''SUCCESS'' (old @ new),
                  failed = count_status ''FAILED'' (old @ new),
                  duplicate = count_status ''DUPLICATE'' (old @ new)\<rparr>
             \<and> ((\<forall>k\<in>set (success_keys old). unspaced k) \<and> distinct (success_keys old)
                  \<and> (\<forall>r\<in>set df. text_key (geo_code r)) \<and> distinct (map geo_code df) \<longrightarrow>
                  (\<forall>k\<in>set (success_keys (old @ new)). unspaced k)
                  \<and> distinct (success_keys (old @ new))
                  \<and> success (get_upload_stats (log_file (snd (main e df w)))) =
                      card (load_uploaded_records (log_file (snd (main e df w)))))"
  proof cases
    case 1
    with l assms(2) have lg: "log_file (snd (main e df w)) = written_log (repr e) (old @ [])"
      by simp
    have e1: "\<forall>x\<in>set ([]::entry list). line_entry (repr e) x" by simp
    have e2: "map e_key ([]::entry list) = map (\<lambda>r. str_key ?fr (geo_code r)) []" by simp
    have e3: "set ([]::row list) \<subseteq> set ?todo" by simp
    have e4: "distinct (map geo_code df) \<longrightarrow> distinct (map geo_code ([]::row list))" by simp
    from inv [OF lg e1 e2 e3 e4] lg show ?thesis by blast
  next
    case 2
    let ?new = "run_entries e ?todo w1"
    from 2 run_world_log [of e ?todo w1] l assms(2)
    have lg: "log_file (snd (main e df w)) = written_log (repr e) (old @ ?new)"
      by (simp add: written_log_append)
    have tr: "tidy_rows e ?todo"
      using assms(4) unfolding records_to_upload_def by (rule tidy_rows_filter)
    have cl: "\<forall>x\<in>set ?new. line_entry (repr e) x"
      using run_entries_line [OF assms(3) tr] by simp
    have keys: "map e_key ?new = map (\<lambda>r. str_key ?fr (geo_code r)) ?todo"
      by (rule run_entries_keys)
    have ds: "distinct (map geo_code df) \<longrightarrow> distinct (map geo_code ?todo)"
      unfolding records_to_upload_def by (simp add: distinct_map_filter)
    from inv [OF lg cl keys subset_refl ds] lg show ?thesis by blast
  qed
  with first stats_count_lines [of content] show ?thesis by blast
qed

lemma script_all: "(\<forall>a\<in>set answers. P a) \<Longrightarrow> P (Raises (Fault ''Connection refused'')) \<Longrightarrow> P (script answers n)"
  by (simp add: script_def)

lemmas tidy_defs = tidy_answer_def tidy_created_def tidy_fetched_def tidy_exc_def granted_def
  created_def not_found_def reply_def osid_of_def or_empty_def single_line_def LF_def CR_def

lemma demo_later_tidy: "tidy demo_later"
proof -
  have tok: "tidy_answer (script [granted] n)" for n
    by (rule script_all [where P = tidy_answer]) (simp_all add: tidy_defs)
  have cre: "tidy_answer (script [created] n)" for n
    by (rule script_all [where P = tidy_answer]) (simp_all add: tidy_defs)
  have fet: "tidy_answer (script [not_found] n)" for n
    by (rule script_all [where P = tidy_answer]) (simp_all add: tidy_defs)
  have ids: "tidy_created rp (script [created] n)" for n rp
    by (rule script_all [where P = "tidy_created rp"]) (simp_all add: tidy_defs)
  have wfs: "tidy_fetched rp (script [not_found] n)" for n rp
    by (rule script_all [where P = "tidy_fetched rp"]) (simp_all add: tidy_defs)
  have now: "single_line ''2024-05-01 10:00:00''"
    by (simp add: single_line_def LF_def CR_def)
  from tok cre fet ids wfs now show ?thesis
    by (simp add: tidy_def demo_later_def demo_env_def)
qed

lemma demo_table_tidy: "tidy_rows demo_later demo_table"
  by (simp add: tidy_rows_def loggable_def demo_table_def demo_later_def demo_env_def
      row_to_facility_def demo_row_def bind_exc_def row_item_def coordinate_def
      opt_field_def opt_truthy_field_def opt_float_field_def opt_yes_field_def
      PIPE_def single_line_def LF_def CR_def)

lemma demo_entries_line: "\<forall>x\<in>set demo_entries. line_entry rp x"
  by (simp add: demo_entries_def line_entry_def log_defs)

lemma demo_later_uploaded:
  "load_uploaded_records (log_file (snd (main demo_later demo_table demo_logged))) = {''B'', ''A''}"
  by (simp add: demo_later_def demo_logged_def demo_entries_def demo_table_def
      main_def bulk_upload_def process_row_def run_defs log_defs row_defs
      records_to_upload_def write_log_def repr_def)

text \<open>An instance: after the later invocation the log counts two successes, for two
  keys.\<close>

theorem cumulative_stats_witness:
  "get_upload_stats (log_file demo_logged) = \<lparr>success = 1, failed = 1, duplicate = 1\<rparr>
   \<and> success (get_upload_stats (log_file (snd (main demo_later demo_table demo_logged)))) = 2"
proof -
  have "\<forall>x\<in>set demo_entries. line_entry (repr demo_later) x"
    by (rule demo_entries_line)
  moreover have "log_file demo_logged = written_log (repr demo_later) demo_entries"
    by (simp add: demo_logged_def)
  moreover note demo_later_tidy demo_table_tidy
  ultimately have t: "get_upload_stats (log_file demo_logged) =
           \<lparr>success = count_lines ''SUCCESS'' (log_file demo_logged),
            failed = count_lines ''FAILED'' (log_file demo_logged),
            duplicate = count_lines ''DUPLICATE'' (log_file demo_logged)\<rparr>
       \<and> get_upload_stats (log_file demo_logged) =
           \<lparr>success = count_status ''SUCCESS'' demo_entries,
            failed = count_status ''FAILED'' demo_entries,
            duplicate = count_status ''DUPLICATE'' demo_entries\<rparr>
       \<and> (\<exists>new. log_file (snd (main demo_later demo_table demo_logged)) =
                   written_log (repr demo_later) (demo_entries @ new)
             \<and> (\<forall>x\<in>set (demo_entries @ new). line_entry (repr demo_later) x)
             \<and> get_upload_stats (log_file (snd (main demo_later demo_table demo_logged))) =
                 \<lparr>success = count_status ''SUCCESS'' (demo_entries @ new),
                  failed = count_status ''FAILED'' (demo_entries @ new),
                  duplicate = count_status ''DUPLICATE'' (demo_entries @ new)\<rparr>
             \<and> ((\<forall>k\<in>set (success_keys demo_entries). unspaced k)
                  \<and> distinct (success_keys demo_entries)
                  \<and> (\<forall>r\<in>set demo_table. text_key (geo_code r))
                  \<and> distinct (map geo_code demo_table) \<longrightarrow>
                  (\<forall>k\<in>set (success_keys (demo_entries @ new)). unspaced k)
                  \<and> distinct (success_keys (demo_entries @ new))
                  \<and> success (get_upload_stats
                       (log_file (snd (main demo_later demo_table demo_logged)))) =
                      card (load_uploaded_records
                        (log_file (snd (main demo_later demo_table demo_logged))))))"
    by (rule cumulative_stats)
  have h: "(\<forall>k\<in>set (success_keys demo_entries). unspaced k)
      \<and> distinct (success_keys demo_entries)
      \<and> (\<forall>r\<in>set demo_table. text_key (geo_code r))
      \<and> distinct (map geo_code demo_table)"
    by (simp add: success_keys_def demo_entries_def demo_table_def demo_row_def text_key_def
        unspaced_def isspace_def)
  from t h have "success (get_upload_stats (log_file (snd (main demo_later demo_table demo_logged)))) =
      card (load_uploaded_records (log_file (snd (main demo_later demo_table demo_logged))))"
    by blast
  then have two: "success (get_upload_stats (log_file (snd (main demo_later demo_table demo_logged))))
      = 2"
    by (simp add: demo_later_uploaded)
  from t have "get_upload_stats (log_file demo_logged) =
           \<lparr>success = count_status ''SUCCESS'' demo_entries,
            failed = count_status ''FAILED'' demo_entries,
            duplicate = count_status ''DUPLICATE'' demo_entries\<rparr>"
    by blast
  then have "get_upload_stats (log_file demo_logged) = \<lparr>success = 1, failed = 1, duplicate = 1\<rparr>"
    by (simp add: count_status_def demo_entries_def)
  with two show ?thesis by (rule conjI [rotated])
qed

text \<open>
  Claim C7 as stated fails when the table holds a key twice: the filter is applied once,
  before the run, so both rows are submitted, and with both accepted the one key counts
  two successes. The log was empty before, so no logged SUCCESS was resubmitted. And the
  counts are those of the entries only when the keys hold no \<^verbatim>\<open>|\<close>: the one entry
  with the key \<^verbatim>\<open>X|SUCCESS\<close> and the outcome FAILED is counted as a success.
\<close>

theorem repeated_key_counterexample:
  "success (get_upload_stats (log_file (snd (main
       (demo_env [granted] [created, created] [not_found, not_found])
       [demo_row (KStr ''A'') NaN, demo_row (KStr ''A'') NaN] demo_world)))) = 2
   \<and> load_uploaded_records (log_file (snd (main
       (demo_env [granted] [created, created] [not_found, not_found])
       [demo_row (KStr ''A'') NaN, demo_row (KStr ''A'') NaN] demo_world))) = {''A''}
   \<and> get_upload_stats
       (log_result (\<lambda>v. []) ''X|SUCCESS'' ''FAILED'' ''Timeout after retries'' JNull JNull
          ''2024-05-01 10:00:00'' []) = \<lparr>success = 1, failed = 0, duplicate = 0\<rparr>"
  by (simp add: main_def bulk_upload_def process_row_def run_defs log_defs row_defs
      records_to_upload_def write_log_def repr_def)

end
